theory Spec2Isabelle
  imports Main "HOL-Library.AList"
begin

section \<open>JavaScript values and strings\<close>

text \<open>
  A string is the list of its characters. The case mappings of JavaScript strings,
  \<open>toLowerCase\<close> and \<open>toUpperCase\<close>, follow the Unicode tables and may change the length
  of a string; they are not defined here but taken as parameters, together with the
  libraries that the program calls.
\<close>

definition nl :: string where
  "nl = [CHR 0x0A]"

definition quote :: string where
  "quote = [CHR 0x27]"

text \<open>
  The values that travel through option configurations and parsed arguments. A number is
  represented by its canonical rendering, the text that \<open>String(n)\<close> returns for it; an
  object is the list of its own properties in insertion order.
\<close>

datatype jsval =
    JBool bool
  | JStr string
  | JNum string
  | JArr "jsval list"
  | JObj "(string \<times> jsval) list"

fun join_comma :: "string list \<Rightarrow> string" where
  "join_comma [] = []"
| "join_comma [s] = s"
| "join_comma (s # t # ss) = s @ '','' @ join_comma (t # ss)"

text \<open>\<open>String(v)\<close>, the conversion that \<open>run\<close> applies to every positional.\<close>

fun js_String :: "jsval \<Rightarrow> string" where
  "js_String (JBool b) = (if b then ''true'' else ''false'')"
| "js_String (JStr s) = s"
| "js_String (JNum s) = s"
| "js_String (JArr vs) = join_comma (map js_String vs)"
| "js_String (JObj ps) = ''[object Object]''"

text \<open>Truthiness, as tested by \<open>if (args.help)\<close>.\<close>

fun truthy :: "jsval \<Rightarrow> bool" where
  "truthy (JBool b) = b"
| "truthy (JStr s) = (s \<noteq> [])"
| "truthy (JNum s) = (s \<noteq> ''0'' \<and> s \<noteq> ''NaN'')"
| "truthy (JArr vs) = True"
| "truthy (JObj ps) = True"

section \<open>The error classes\<close>

text \<open>
  \<open>CommandError extends Error\<close>, \<open>CommandUsageError extends CommandError\<close>,
  \<open>UnexpectedArgError extends CommandUsageError\<close>. \<open>OtherError\<close> stands for any other
  class of value that user code may throw.
\<close>

datatype error_class =
    PlainError
  | TypeError
  | CommandError
  | CommandUsageError
  | UnexpectedArgError
  | OtherError string

datatype error = Err (err_class: error_class) (message: string)

text \<open>\<open>err instanceof CommandError\<close> and \<open>err instanceof CommandUsageError\<close>.\<close>

fun instanceof_CommandError :: "error \<Rightarrow> bool" where
  "instanceof_CommandError (Err c m) =
     (c = CommandError \<or> c = CommandUsageError \<or> c = UnexpectedArgError)"

fun instanceof_CommandUsageError :: "error \<Rightarrow> bool" where
  "instanceof_CommandUsageError (Err c m) = (c = CommandUsageError \<or> c = UnexpectedArgError)"

definition new_Error :: "string \<Rightarrow> error" where
  "new_Error m = Err PlainError m"

definition new_CommandError :: "string \<Rightarrow> error" where
  "new_CommandError m = Err CommandError m"

definition new_CommandUsageError :: "string \<Rightarrow> error" where
  "new_CommandUsageError m = Err CommandUsageError m"

definition new_UnexpectedArgError :: "string \<Rightarrow> error" where
  "new_UnexpectedArgError arg = Err UnexpectedArgError (''UnexpectedArgument: \"'' @ arg @ ''\"'')"

section \<open>Parsed arguments and option configurations\<close>

text \<open>
  The output of the option parser: the option values by name, and the positional list
  \<open>args._\<close>.
\<close>

record parsed_args =
  pa_flags :: "(string \<times> jsval) list"
  pa_positionals :: "jsval list"

text \<open>
  A configuration for the option parser (\<open>Minimist.Opts\<close>). Each of the four categories
  may be absent; \<open>opt_boolean\<close> and \<open>opt_string\<close> hold a single value or an array of
  names, \<open>opt_alias\<close> and \<open>opt_default\<close> are objects. \<open>opt_other\<close> holds every other key.
\<close>

record opts =
  opt_alias :: "(string \<times> jsval) list option"
  opt_boolean :: "jsval option"
  opt_default :: "(string \<times> jsval) list option"
  opt_string :: "jsval option"
  opt_other :: "(string \<times> jsval) list"

text \<open>
  What the program calls and does not define is a parameter of the model: the option
  parser \<open>Minimist(argv, opts)\<close>, \<open>OptionHelp.wrapText(text, width, flag)\<close>, and the two
  case mappings \<open>s.toLowerCase()\<close> and \<open>s.toUpperCase()\<close> of the language.
\<close>

record libs =
  Minimist :: "string list \<Rightarrow> opts \<Rightarrow> parsed_args"
  wrapText :: "string \<Rightarrow> int \<Rightarrow> bool \<Rightarrow> string"
  toLowerCase :: "string \<Rightarrow> string"
  toUpperCase :: "string \<Rightarrow> string"

section \<open>CommandSpec\<close>

text \<open>
  What a handler does is user code. It is modelled by functions over a user state \<open>'u\<close>
  (the instance variables of all user classes). A hook that may throw returns
  \<open>Inl\<close> of the thrown value. The execution hook returns what it did: its calls of the
  completion callback, its writes, and whether it returned or threw.
\<close>

datatype hook =
    H_createCommand
  | H_addOptions
  | H_parseArgs
  | H_doCommand
  | H_getHelp
  | H_addDefaultOptions
  | H_parseDefaultArgs
  | H_doDefaultCommand
  | H_getHelpAll

datatype event =
    Invoke hook
  | Stdout string
  | Stderr string
  | Next "error option"

datatype outcome = Returned | Threw error

text \<open>
  The methods of a concrete subclass of \<open>NamedCommand\<close>. \<open>nc_getHelp\<close> receives, as its
  first argument, what the back-references set by \<open>_init\<close> give it access to: the
  dispatcher's summary renderer applied to the command's own spec.
\<close>

record 'u named_command =
  nc_addOptions :: "'u \<Rightarrow> opts \<Rightarrow> error + (opts \<times> 'u)"
  nc_parseArgs :: "'u \<Rightarrow> parsed_args \<Rightarrow> error + (parsed_args \<times> 'u)"
  nc_doCommand :: "'u \<Rightarrow> parsed_args \<Rightarrow> event list \<times> outcome"
  nc_getHelp :: "(int \<Rightarrow> string) \<Rightarrow> 'u \<Rightarrow> int \<Rightarrow> string"

text \<open>The implementations that \<open>NamedCommand\<close> itself provides (\<open>doCommand\<close> is abstract).\<close>

definition NamedCommand_addOptions :: "'u \<Rightarrow> opts \<Rightarrow> error + (opts \<times> 'u)" where
  "NamedCommand_addOptions u options = Inr (options, u)"

definition NamedCommand_parseArgs :: "'u \<Rightarrow> parsed_args \<Rightarrow> error + (parsed_args \<times> 'u)" where
  "NamedCommand_parseArgs u args = Inr (args, u)"

definition NamedCommand_getHelp :: "(int \<Rightarrow> string) \<Rightarrow> 'u \<Rightarrow> int \<Rightarrow> string" where
  "NamedCommand_getHelp runner_getHelpSummaryEntry_spec u rightMargin =
     runner_getHelpSummaryEntry_spec rightMargin"

record 'u command_spec =
  spec_name :: string
  spec_normName :: string
  spec_syntax :: string
  spec_summary :: string
  spec_firstOfGroup :: bool
  createCommand :: "'u \<Rightarrow> 'u named_command \<times> 'u"

text \<open>The first match of \<open>/[^ ]+/\<close>: the first maximal run of characters other than a space.\<close>

definition match_name :: "string \<Rightarrow> string option" where
  "match_name syntax_text =
     (let t = dropWhile (\<lambda>c. c = CHR '' '') syntax_text
      in if t = [] then None else Some (takeWhile (\<lambda>c. c \<noteq> CHR '' '') t))"

text \<open>\<open>s[0] === '-'\<close>; on the empty string \<open>s[0]\<close> is undefined and the test is false.\<close>

fun starts_with_dash :: "string \<Rightarrow> bool" where
  "starts_with_dash [] = False"
| "starts_with_dash (c # cs) = (c = CHR ''-'')"

text \<open>
  The constructor of \<open>CommandSpec\<close>. \<open>_firstOfGroup\<close> is not set by the constructor; it
  is falsy until \<open>addCommands\<close> writes it.
\<close>

definition new_CommandSpec ::
  "libs \<Rightarrow> string \<Rightarrow> string \<Rightarrow> ('u \<Rightarrow> 'u named_command \<times> 'u) \<Rightarrow> error + 'u command_spec" where
  "new_CommandSpec lib syntax_text summary factory =
     (case match_name syntax_text of
        None \<Rightarrow> Inl (new_Error (quote @ syntax_text @ quote @ '' is missing a command name''))
      | Some name \<Rightarrow>
          if starts_with_dash name
          then Inl (new_Error (''Command name '' @ quote @ name @ '' cannot start with a dash''))
          else Inr \<lparr>spec_name = name, spec_normName = toLowerCase lib name,
                    spec_syntax = syntax_text, spec_summary = summary,
                    spec_firstOfGroup = False, createCommand = factory\<rparr>)"

section \<open>The command registry\<close>

record 'u runner =
  commandSpecs :: "'u command_spec list"
  helpWrapWidth :: int

definition DEFAULT_WRAP_WIDTH :: int where
  "DEFAULT_WRAP_WIDTH = 80"

text \<open>
  The constructor of \<open>CommandRunner\<close>: \<open>options.helpWrapWidth || DEFAULT_WRAP_WIDTH\<close>, so an
  absent width and the width 0 both give the default.
\<close>

definition new_CommandRunner :: "int option \<Rightarrow> 'u runner" where
  "new_CommandRunner w =
     \<lparr>commandSpecs = [],
      helpWrapWidth = (case w of None \<Rightarrow> DEFAULT_WRAP_WIDTH
                       | Some n \<Rightarrow> if n = 0 then DEFAULT_WRAP_WIDTH else n)\<rparr>"

text \<open>
  The inner loop of \<open>addCommands\<close>: compare the new spec with every registered one and
  throw at the first equal normalized name.
\<close>

fun check_duplicate :: "'u command_spec \<Rightarrow> 'u command_spec list \<Rightarrow> error option" where
  "check_duplicate spec [] = None"
| "check_duplicate spec (priorSpec # rest) =
     (if spec_normName spec = spec_normName priorSpec
      then Some (new_Error (''duplicate command name '' @ quote @ spec_normName spec @ quote))
      else check_duplicate spec rest)"

text \<open>
  The outer loop, over the group, with the local \<open>firstOfGroup\<close> and the registry as
  state. A throw leaves the registry as it is at that moment: the specs of the group
  pushed before the duplicate stay registered.
\<close>

fun addCommands_loop ::
  "bool \<Rightarrow> 'u command_spec list \<Rightarrow> 'u command_spec list \<Rightarrow> 'u command_spec list \<times> error option" where
  "addCommands_loop firstOfGroup [] specs = (specs, None)"
| "addCommands_loop firstOfGroup (spec # rest) specs =
     (case check_duplicate spec specs of
        Some e \<Rightarrow> (specs, Some e)
      | None \<Rightarrow> addCommands_loop False rest (specs @ [spec\<lparr>spec_firstOfGroup := firstOfGroup\<rparr>]))"

definition addCommands :: "'u runner \<Rightarrow> 'u command_spec list \<Rightarrow> 'u runner \<times> error option" where
  "addCommands r grp =
     (case addCommands_loop True grp (commandSpecs r) of
        (specs, thrown) \<Rightarrow> (r\<lparr>commandSpecs := specs\<rparr>, thrown))"

text \<open>A sequence of \<open>addCommands\<close> calls on one dispatcher, whatever each call throws.\<close>

definition addCommands_seq :: "'u runner \<Rightarrow> 'u command_spec list list \<Rightarrow> 'u runner" where
  "addCommands_seq r groups = foldl (\<lambda>r g. fst (addCommands r g)) r groups"

section \<open>CommandUtil.addOptions\<close>

text \<open>
  \<open>Object.assign(target, source)\<close>: every own property of the source is written to the
  target, in the source's order; a key the target has keeps its place and gets the new
  value, a new key is appended.
\<close>

definition Object_assign :: "(string \<times> jsval) list \<Rightarrow> (string \<times> jsval) list \<Rightarrow> (string \<times> jsval) list" where
  "Object_assign target source = fold (\<lambda>(k, v) t. AList.update k v t) source target"

definition throw_TypeError :: "error + 'a" where
  "throw_TypeError = Inl (Err TypeError [])"

text \<open>
  One definition for each case of the \<open>switch\<close>. A case runs when the key is present in
  \<open>fromOptions\<close>. Calling \<open>concat\<close> or \<open>push\<close> on a value that has no such method, and
  \<open>Object.assign\<close> on an undefined target, throw a TypeError; \<open>concat\<close> on a string is
  string concatenation. The message of a TypeError is the engine's and not the
  program's: it is left empty, so every TypeError is the same value.
\<close>

definition addOptions_alias :: "opts \<Rightarrow> opts \<Rightarrow> error + opts" where
  "addOptions_alias toOptions fromOptions =
     (case opt_alias fromOptions of
        None \<Rightarrow> Inr toOptions
      | Some value \<Rightarrow>
          (case opt_alias toOptions of
             None \<Rightarrow> throw_TypeError
           | Some target \<Rightarrow> Inr (toOptions\<lparr>opt_alias := Some (Object_assign target value)\<rparr>)))"

definition array_concat :: "jsval list \<Rightarrow> jsval \<Rightarrow> jsval list" where
  "array_concat xs value = (case value of JArr vs \<Rightarrow> xs @ vs | _ \<Rightarrow> xs @ [value])"

definition isArray :: "jsval \<Rightarrow> bool" where
  "isArray value = (case value of JArr vs \<Rightarrow> True | _ \<Rightarrow> False)"

definition addOptions_boolean :: "opts \<Rightarrow> opts \<Rightarrow> error + opts" where
  "addOptions_boolean toOptions fromOptions =
     (case opt_boolean fromOptions of
        None \<Rightarrow> Inr toOptions
      | Some value \<Rightarrow>
          (if isArray value then
             (case opt_boolean toOptions of
                Some (JArr boolNames) \<Rightarrow>
                  Inr (toOptions\<lparr>opt_boolean := Some (JArr (array_concat boolNames value))\<rparr>)
              | Some (JStr s) \<Rightarrow> Inr (toOptions\<lparr>opt_boolean := Some (JStr (s @ js_String value))\<rparr>)
              | _ \<Rightarrow> throw_TypeError)
           else
             (case opt_boolean toOptions of
                Some (JArr boolNames) \<Rightarrow> Inr (toOptions\<lparr>opt_boolean := Some (JArr (boolNames @ [value]))\<rparr>)
              | _ \<Rightarrow> throw_TypeError)))"

definition addOptions_default :: "opts \<Rightarrow> opts \<Rightarrow> error + opts" where
  "addOptions_default toOptions fromOptions =
     (case opt_default fromOptions of
        None \<Rightarrow> Inr toOptions
      | Some value \<Rightarrow>
          (let target = (case opt_default toOptions of None \<Rightarrow> [] | Some d \<Rightarrow> d)
           in Inr (toOptions\<lparr>opt_default := Some (Object_assign target value)\<rparr>)))"

definition isString :: "jsval \<Rightarrow> bool" where
  "isString value = (case value of JStr s \<Rightarrow> True | _ \<Rightarrow> False)"

definition addOptions_string :: "opts \<Rightarrow> opts \<Rightarrow> error + opts" where
  "addOptions_string toOptions fromOptions =
     (case opt_string fromOptions of
        None \<Rightarrow> Inr toOptions
      | Some value \<Rightarrow>
          (let stringNames = (case opt_string toOptions of
                                None \<Rightarrow> JArr []
                              | Some s \<Rightarrow> if truthy s then s else JArr [])
           in if isString value then
                (case stringNames of
                   JArr names \<Rightarrow> Inr (toOptions\<lparr>opt_string := Some (JArr (names @ [value]))\<rparr>)
                 | _ \<Rightarrow> throw_TypeError)
              else
                (case stringNames of
                   JArr names \<Rightarrow> Inr (toOptions\<lparr>opt_string := Some (JArr (array_concat names value))\<rparr>)
                 | JStr s \<Rightarrow> Inr (toOptions\<lparr>opt_string := Some (JStr (s @ js_String value))\<rparr>)
                 | _ \<Rightarrow> throw_TypeError)))"

definition and_then :: "error + 'a \<Rightarrow> ('a \<Rightarrow> error + 'b) \<Rightarrow> error + 'b" where
  "and_then x f = (case x of Inl e \<Rightarrow> Inl e | Inr a \<Rightarrow> f a)"

text \<open>
  The loop over the keys of \<open>fromOptions\<close>. Each of the four cases reads and writes its
  own property of \<open>toOptions\<close> only, and a throw in any of them ends the call with the
  same value, so the result does not depend on the order in which the keys are
  visited. The \<open>default\<close> case of
  the \<open>switch\<close> assigns the value back to \<open>fromOptions\<close>, which changes neither object:
  the keys in \<open>opt_other\<close> are not copied.
\<close>

definition CommandUtil_addOptions :: "opts \<Rightarrow> opts \<Rightarrow> error + opts" where
  "CommandUtil_addOptions toOptions fromOptions =
     and_then (addOptions_alias toOptions fromOptions) (\<lambda>t1.
     and_then (addOptions_boolean t1 fromOptions) (\<lambda>t2.
     and_then (addOptions_default t2 fromOptions) (\<lambda>t3.
     addOptions_string t3 fromOptions)))"

section \<open>The dispatcher\<close>

text \<open>
  The methods of \<open>CommandRunner\<close> that a subclass may override, as a table; \<open>cr_getHelp\<close>
  receives the table of the three help pieces it calls through \<open>this\<close>.
\<close>

record 'u help_methods =
  cr_getHelpIntro :: "int \<Rightarrow> string"
  cr_getHelpSummaryEntry :: "'u command_spec \<Rightarrow> int \<Rightarrow> string"
  cr_getHelpTrailer :: "int \<Rightarrow> string"

record 'u runner_methods =
  cr_addDefaultOptions :: "'u \<Rightarrow> opts \<Rightarrow> error + (opts \<times> 'u)"
  cr_parseDefaultArgs :: "'u \<Rightarrow> parsed_args \<Rightarrow> error + (parsed_args \<times> 'u)"
  cr_doDefaultCommand :: "'u runner \<Rightarrow> 'u \<Rightarrow> parsed_args \<Rightarrow> event list \<times> outcome"
  cr_getHelp :: "'u help_methods \<Rightarrow> 'u runner \<Rightarrow> int \<Rightarrow> string"
  cr_help :: "'u help_methods"

subsection \<open>The implementations of the base class\<close>

definition CommandRunner_addDefaultOptions :: "'u \<Rightarrow> opts \<Rightarrow> error + (opts \<times> 'u)" where
  "CommandRunner_addDefaultOptions u options = Inr (options, u)"

definition CommandRunner_parseDefaultArgs :: "'u \<Rightarrow> parsed_args \<Rightarrow> error + (parsed_args \<times> 'u)" where
  "CommandRunner_parseDefaultArgs u args = Inr (args, u)"

definition CommandRunner_doDefaultCommand ::
  "'u runner \<Rightarrow> 'u \<Rightarrow> parsed_args \<Rightarrow> event list \<times> outcome" where
  "CommandRunner_doDefaultCommand r u args =
     (if length (commandSpecs r) > 0
      then ([Next (Some (new_CommandUsageError ''Missing command argument''))], Returned)
      else ([Next (Some (new_Error ''Default command not implemented''))], Returned))"

definition CommandRunner_getHelpIntro :: "int \<Rightarrow> string" where
  "CommandRunner_getHelpIntro rightMargin = ''This tool supports the following commands:'' @ nl"

definition CommandRunner_getHelpSummaryEntry :: "libs \<Rightarrow> 'u command_spec \<Rightarrow> int \<Rightarrow> string" where
  "CommandRunner_getHelpSummaryEntry lib spec rightMargin =
     (let syntax_rest = drop (length (spec_name spec)) (spec_syntax spec);
          summary = wrapText lib (''  '' @ spec_summary spec) rightMargin True
      in toUpperCase lib (spec_name spec) @ syntax_rest @ nl @ summary @ nl)"

definition CommandRunner_getHelpTrailer :: "int \<Rightarrow> string" where
  "CommandRunner_getHelpTrailer rightMargin = nl"

text \<open>The loop of \<open>getHelp\<close> over the registry, with the text built so far as its state.\<close>

fun getHelp_loop :: "'u help_methods \<Rightarrow> int \<Rightarrow> 'u command_spec list \<Rightarrow> string \<Rightarrow> string" where
  "getHelp_loop h rightMargin [] help = help"
| "getHelp_loop h rightMargin (spec # rest) help =
     getHelp_loop h rightMargin rest
       ((if spec_firstOfGroup spec then help @ nl else help)
          @ cr_getHelpSummaryEntry h spec rightMargin)"

definition CommandRunner_getHelp :: "'u help_methods \<Rightarrow> 'u runner \<Rightarrow> int \<Rightarrow> string" where
  "CommandRunner_getHelp h r rightMargin =
     (if length (commandSpecs r) = 0 then ''Help is not available.''
      else getHelp_loop h rightMargin (commandSpecs r) (cr_getHelpIntro h rightMargin)
             @ cr_getHelpTrailer h rightMargin)"

definition CommandRunner_help :: "libs \<Rightarrow> 'u help_methods" where
  "CommandRunner_help lib =
     \<lparr>cr_getHelpIntro = CommandRunner_getHelpIntro,
      cr_getHelpSummaryEntry = CommandRunner_getHelpSummaryEntry lib,
      cr_getHelpTrailer = CommandRunner_getHelpTrailer\<rparr>"

definition CommandRunner_methods :: "libs \<Rightarrow> 'u runner_methods" where
  "CommandRunner_methods lib =
     \<lparr>cr_addDefaultOptions = CommandRunner_addDefaultOptions,
      cr_parseDefaultArgs = CommandRunner_parseDefaultArgs,
      cr_doDefaultCommand = CommandRunner_doDefaultCommand,
      cr_getHelp = CommandRunner_getHelp,
      cr_help = CommandRunner_help lib\<rparr>"

subsection \<open>run\<close>

text \<open>The configuration that \<open>run\<close> starts from: \<open>{ boolean: ['h'], alias: { h: 'help' } }\<close>.\<close>

definition configOptions :: opts where
  "configOptions =
     \<lparr>opt_alias = Some [(''h'', JStr ''help'')], opt_boolean = Some (JArr [JStr ''h'']),
      opt_default = None, opt_string = None, opt_other = []\<rparr>"

text \<open>
  The lookup loop: every spec with the wanted normalized name is assigned to
  \<open>commandSpec\<close> in turn, so the last one stays.
\<close>

fun find_loop :: "'u command_spec list \<Rightarrow> string \<Rightarrow> 'u command_spec option \<Rightarrow> 'u command_spec option" where
  "find_loop [] commandName commandSpec = commandSpec"
| "find_loop (spec # rest) commandName commandSpec =
     find_loop rest commandName
       (if spec_normName spec = commandName then Some spec else commandSpec)"

definition args_help :: "parsed_args \<Rightarrow> bool" where
  "args_help args = (case map_of (pa_flags args) ''help'' of None \<Rightarrow> False | Some v \<Rightarrow> truthy v)"

definition stringify_positionals :: "parsed_args \<Rightarrow> parsed_args" where
  "stringify_positionals args =
     args\<lparr>pa_positionals := map (\<lambda>arg. JStr (js_String arg)) (pa_positionals args)\<rparr>"

definition after :: "event list \<Rightarrow> event list \<times> outcome \<Rightarrow> event list \<times> outcome" where
  "after evs res = (evs @ fst res, snd res)"

text \<open>
  The part of \<open>run\<close> that follows the call of the option parser: the help request, the
  validation hook inside the \<open>try\<close>, the execution hook. \<open>command\<close> is the instantiated
  handler with its spec, or \<open>None\<close> on the default path. Each call of a user hook is
  recorded in the trace by an \<open>Invoke\<close> event. The completion callback is taken to
  return normally.
\<close>

definition run_args ::
  "libs \<Rightarrow> 'u runner_methods \<Rightarrow> 'u runner \<Rightarrow> ('u command_spec \<times> 'u named_command) option
     \<Rightarrow> 'u \<Rightarrow> parsed_args \<Rightarrow> event list \<times> outcome" where
  "run_args lib m r command u args =
     (if args_help args then
        (case command of
           Some (spec, c) \<Rightarrow>
             ([Invoke H_getHelp,
               Stdout (wrapText lib
                         (nc_getHelp c (cr_getHelpSummaryEntry (cr_help m) spec) u (helpWrapWidth r))
                         (helpWrapWidth r) True),
               Next None], Returned)
         | None \<Rightarrow>
             ([Invoke H_getHelpAll,
               Stdout (wrapText lib (cr_getHelp m (cr_help m) r (helpWrapWidth r))
                         (helpWrapWidth r) True),
               Next None], Returned))
      else
        (let args1 = stringify_positionals args;
             called = (case command of Some (spec, c) \<Rightarrow> H_parseArgs | None \<Rightarrow> H_parseDefaultArgs);
             parsed = (case command of
                         Some (spec, c) \<Rightarrow> nc_parseArgs c u args1
                       | None \<Rightarrow> cr_parseDefaultArgs m u args1)
         in case parsed of
              Inl err \<Rightarrow>
                (if instanceof_CommandError err
                 then ([Invoke called, Next (Some err)], Returned)
                 else ([Invoke called], Threw err))
            | Inr (args2, u2) \<Rightarrow>
                (case pa_positionals args2 of
                   arg0 # others \<Rightarrow>
                     ([Invoke called, Next (Some (new_UnexpectedArgError (js_String arg0)))], Returned)
                 | [] \<Rightarrow>
                     (case command of
                        Some (spec, c) \<Rightarrow>
                          after [Invoke called, Invoke H_doCommand] (nc_doCommand c u2 args2)
                      | None \<Rightarrow>
                          after [Invoke called, Invoke H_doDefaultCommand]
                            (cr_doDefaultCommand m r u2 args2)))))"

text \<open>The named path: instantiate the handler, let it add its options, parse \<open>argv.slice(1)\<close>.\<close>

definition named_path ::
  "libs \<Rightarrow> 'u runner_methods \<Rightarrow> 'u runner \<Rightarrow> 'u \<Rightarrow> 'u command_spec \<Rightarrow> string list
     \<Rightarrow> event list \<times> outcome" where
  "named_path lib m r u commandSpec rest =
     (case createCommand commandSpec u of
        (command, u1) \<Rightarrow>
          (case nc_addOptions command u1 configOptions of
             Inl err \<Rightarrow> ([Invoke H_createCommand, Invoke H_addOptions], Threw err)
           | Inr (options, u2) \<Rightarrow>
               after [Invoke H_createCommand, Invoke H_addOptions]
                 (run_args lib m r (Some (commandSpec, command)) u2 (Minimist lib rest options))))"

text \<open>The default path: the dispatcher adds its own options, the whole \<open>argv\<close> is parsed.\<close>

definition default_path ::
  "libs \<Rightarrow> 'u runner_methods \<Rightarrow> 'u runner \<Rightarrow> 'u \<Rightarrow> string list \<Rightarrow> event list \<times> outcome" where
  "default_path lib m r u argv =
     (case cr_addDefaultOptions m u configOptions of
        Inl err \<Rightarrow> ([Invoke H_addDefaultOptions], Threw err)
      | Inr (options, u1) \<Rightarrow>
          after [Invoke H_addDefaultOptions] (run_args lib m r None u1 (Minimist lib argv options)))"

definition run ::
  "libs \<Rightarrow> 'u runner_methods \<Rightarrow> 'u runner \<Rightarrow> 'u \<Rightarrow> string list \<Rightarrow> event list \<times> outcome" where
  "run lib m r u argv =
     (if length argv > 0 \<and> \<not> starts_with_dash (argv ! 0) then
        (let commandName = toLowerCase lib (argv ! 0)
         in case find_loop (commandSpecs r) commandName None of
              None \<Rightarrow>
                ([Next (Some (new_CommandUsageError
                                (''unrecognized command '' @ quote @ commandName @ quote)))],
                 Returned)
            | Some commandSpec \<Rightarrow> named_path lib m r u commandSpec (tl argv))
      else default_path lib m r u argv)"

subsection \<open>The callback of the demo\<close>

text \<open>
  The function that the demo passes to \<open>run\<close>: a usage error and a command error are
  reported on the error stream, any other error is thrown again.
\<close>

definition demo_callback :: "error option \<Rightarrow> event list \<times> outcome" where
  "demo_callback err =
     (case err of
        None \<Rightarrow> ([], Returned)
      | Some e \<Rightarrow>
          if instanceof_CommandUsageError e
          then ([Stderr (message e @ '' (-h for help)'' @ nl)], Returned)
          else if instanceof_CommandError e
          then ([Stderr (message e @ nl)], Returned)
          else ([], Threw e))"

section \<open>Notions used to state the properties\<close>

text \<open>
  A spec as the constructor returns it for its own syntax, summary and factory; the
  group flag is left out of the comparison, since \<open>addCommands\<close> writes it later.
\<close>

definition from_constructor :: "libs \<Rightarrow> 'u command_spec \<Rightarrow> bool" where
  "from_constructor lib spec =
     (new_CommandSpec lib (spec_syntax spec) (spec_summary spec) (createCommand spec) =
        Inr (spec\<lparr>spec_firstOfGroup := False\<rparr>))"

text \<open>
  The aggregate help as the specification describes it: the introduction, then for each
  spec in order its entry, preceded by a blank line when the spec is the first of its
  group, then the trailer.
\<close>

definition help_layout :: "'u help_methods \<Rightarrow> 'u command_spec list \<Rightarrow> int \<Rightarrow> string" where
  "help_layout h specs rightMargin =
     cr_getHelpIntro h rightMargin
       @ concat (map (\<lambda>spec. (if spec_firstOfGroup spec then nl else [])
                               @ cr_getHelpSummaryEntry h spec rightMargin) specs)
       @ cr_getHelpTrailer h rightMargin"

text \<open>The same layout read off the groups as they were registered.\<close>

definition help_layout_groups :: "'u help_methods \<Rightarrow> 'u command_spec list list \<Rightarrow> int \<Rightarrow> string" where
  "help_layout_groups h groups rightMargin =
     cr_getHelpIntro h rightMargin
       @ concat (map (\<lambda>grp. if grp = [] then []
                             else nl @ concat (map (\<lambda>spec. cr_getHelpSummaryEntry h spec rightMargin) grp))
                   groups)
       @ cr_getHelpTrailer h rightMargin"

text \<open>A group as \<open>addCommands\<close> stores it when nothing is thrown: only its first spec is flagged.\<close>

definition stored_group :: "'u command_spec list \<Rightarrow> 'u command_spec list" where
  "stored_group grp =
     (case grp of
        [] \<Rightarrow> []
      | spec # rest \<Rightarrow>
          spec\<lparr>spec_firstOfGroup := True\<rparr> # map (\<lambda>s. s\<lparr>spec_firstOfGroup := False\<rparr>) rest)"

text \<open>The names that a \<open>boolean\<close> or \<open>string\<close> setting declares.\<close>

definition names_of :: "jsval option \<Rightarrow> jsval set" where
  "names_of setting = (case setting of None \<Rightarrow> {} | Some (JArr vs) \<Rightarrow> set vs | Some v \<Rightarrow> {v})"

text \<open>
  An \<open>alias\<close> or \<open>default\<close> setting read as a map from option names to values; an absent
  setting declares nothing. An object has each of its keys once.
\<close>

definition object_map :: "(string \<times> jsval) list option \<Rightarrow> (string \<rightharpoonup> jsval)" where
  "object_map obj = (case obj of None \<Rightarrow> Map.empty | Some ps \<Rightarrow> map_of ps)"

definition unique_keys :: "(string \<times> jsval) list option \<Rightarrow> bool" where
  "unique_keys obj = (case obj of None \<Rightarrow> True | Some ps \<Rightarrow> distinct (map fst ps))"

text \<open>
  A destination that \<open>CommandUtil.addOptions\<close> can merge into: it has an alias object
  and a boolean array, as the configuration of \<open>run\<close> has, and its string setting is
  absent or an array.
\<close>

definition mergeable :: "opts \<Rightarrow> bool" where
  "mergeable toOptions =
     (opt_alias toOptions \<noteq> None
      \<and> (case opt_boolean toOptions of Some (JArr vs) \<Rightarrow> True | _ \<Rightarrow> False)
      \<and> (case opt_string toOptions of None \<Rightarrow> True | Some (JArr vs) \<Rightarrow> True | _ \<Rightarrow> False))"

section \<open>Examples\<close>

text \<open>
  Stand-ins for the parameters, for use in the examples. The option parser: \<open>-h\<close> and
  \<open>--help\<close> set the help flag, every argument that does not start with a dash is a
  positional. Text is not wrapped. The case mappings are those of JavaScript on text
  whose characters lie below U+0100: the letters \<open>A..Z\<close> and U+00C0..U+00DE (without the
  multiplication sign) and their lower-case forms; upper-casing turns the sharp s,
  U+00DF, into \<open>SS\<close>. (The upper-case forms of U+00B5 and U+00FF lie above U+00FF; the
  stand-in leaves these two characters as they are.)
\<close>

definition plain_Minimist :: "string list \<Rightarrow> opts \<Rightarrow> parsed_args" where
  "plain_Minimist argv options =
     (let help = (''-h'' \<in> set argv \<or> ''--help'' \<in> set argv)
      in \<lparr>pa_flags = [(''h'', JBool help), (''help'', JBool help)],
          pa_positionals = map JStr (filter (\<lambda>a. \<not> starts_with_dash a) argv)\<rparr>)"

definition latin1_upper :: string where
  "latin1_upper = ''ABCDEFGHIJKLMNOPQRSTUVWXYZ'' @
     [CHR 0xC0, CHR 0xC1, CHR 0xC2, CHR 0xC3, CHR 0xC4, CHR 0xC5, CHR 0xC6, CHR 0xC7, CHR 0xC8, CHR 0xC9, CHR 0xCA, CHR 0xCB, CHR 0xCC, CHR 0xCD, CHR 0xCE, CHR 0xCF, CHR 0xD0, CHR 0xD1, CHR 0xD2, CHR 0xD3, CHR 0xD4, CHR 0xD5, CHR 0xD6, CHR 0xD8, CHR 0xD9, CHR 0xDA, CHR 0xDB, CHR 0xDC, CHR 0xDD, CHR 0xDE]"

definition latin1_lower :: string where
  "latin1_lower = ''abcdefghijklmnopqrstuvwxyz'' @
     [CHR 0xE0, CHR 0xE1, CHR 0xE2, CHR 0xE3, CHR 0xE4, CHR 0xE5, CHR 0xE6, CHR 0xE7, CHR 0xE8, CHR 0xE9, CHR 0xEA, CHR 0xEB, CHR 0xEC, CHR 0xED, CHR 0xEE, CHR 0xEF, CHR 0xF0, CHR 0xF1, CHR 0xF2, CHR 0xF3, CHR 0xF4, CHR 0xF5, CHR 0xF6, CHR 0xF8, CHR 0xF9, CHR 0xFA, CHR 0xFB, CHR 0xFC, CHR 0xFD, CHR 0xFE]"

definition sharp_s :: string where
  "sharp_s = [CHR 0xDF]"

definition plain_toLowerChar :: "char \<Rightarrow> char" where
  "plain_toLowerChar c = (case map_of (zip latin1_upper latin1_lower) c of None \<Rightarrow> c | Some d \<Rightarrow> d)"

definition plain_toLowerCase :: "string \<Rightarrow> string" where
  "plain_toLowerCase s = map plain_toLowerChar s"

definition plain_toUpperChar :: "char \<Rightarrow> string" where
  "plain_toUpperChar c =
     (if [c] = sharp_s then ''SS''
      else case map_of (zip latin1_lower latin1_upper) c of None \<Rightarrow> [c] | Some d \<Rightarrow> [d])"

definition plain_toUpperCase :: "string \<Rightarrow> string" where
  "plain_toUpperCase s = concat (map plain_toUpperChar s)"

definition plain_libs :: libs where
  "plain_libs =
     \<lparr>Minimist = plain_Minimist, wrapText = (\<lambda>text width flag. text),
      toLowerCase = plain_toLowerCase, toUpperCase = plain_toUpperCase\<rparr>"

text \<open>A handler that overrides nothing and completes with no error.\<close>

definition hello_command :: "unit named_command" where
  "hello_command =
     \<lparr>nc_addOptions = NamedCommand_addOptions, nc_parseArgs = NamedCommand_parseArgs,
      nc_doCommand = (\<lambda>u args. ([Next None], Returned)), nc_getHelp = NamedCommand_getHelp\<rparr>"

definition hello_spec :: "unit command_spec" where
  "hello_spec =
     \<lparr>spec_name = ''HELLO'', spec_normName = ''hello'', spec_syntax = ''HELLO'',
      spec_summary = ''Says hello back to you'', spec_firstOfGroup = False,
      createCommand = (\<lambda>u. (hello_command, u))\<rparr>"

definition build_spec :: "unit command_spec" where
  "build_spec =
     \<lparr>spec_name = ''Build'', spec_normName = ''build'', spec_syntax = ''Build <target>'',
      spec_summary = ''Builds the target'', spec_firstOfGroup = False,
      createCommand = (\<lambda>u. (hello_command, u))\<rparr>"

text \<open>A handler whose validation hook throws the given value.\<close>

definition failing_command :: "error \<Rightarrow> unit named_command" where
  "failing_command e = hello_command\<lparr>nc_parseArgs := (\<lambda>u args. Inl e)\<rparr>"

definition failing_spec :: "error \<Rightarrow> unit command_spec" where
  "failing_spec e =
     \<lparr>spec_name = ''check'', spec_normName = ''check'', spec_syntax = ''check'',
      spec_summary = ''Checks the input'', spec_firstOfGroup = False,
      createCommand = (\<lambda>u. (failing_command e, u))\<rparr>"

text \<open>Two commands with names outside ASCII: \<open>stra\<close>, sharp s, \<open>e\<close>; and \<open>cole\<close> after U+00C9.\<close>

definition strasse_spec :: "unit command_spec" where
  "strasse_spec =
     \<lparr>spec_name = ''stra'' @ sharp_s @ ''e'', spec_normName = ''stra'' @ sharp_s @ ''e'',
      spec_syntax = ''stra'' @ sharp_s @ ''e'', spec_summary = ''Names a street'',
      spec_firstOfGroup = False, createCommand = (\<lambda>u. (hello_command, u))\<rparr>"

definition ecole_spec :: "unit command_spec" where
  "ecole_spec =
     \<lparr>spec_name = CHR 0xC9 # ''cole'', spec_normName = CHR 0xE9 # ''cole'',
      spec_syntax = CHR 0xC9 # ''cole <class>'', spec_summary = ''Opens a class'',
      spec_firstOfGroup = False, createCommand = (\<lambda>u. (hello_command, u))\<rparr>"

text \<open>The dispatcher of the examples: two groups of one command each.\<close>

definition example_runner :: "unit runner" where
  "example_runner = addCommands_seq (new_CommandRunner None) [[hello_spec], [build_spec]]"

section \<open>Facts about the examples\<close>

lemma example_specs:
  "commandSpecs example_runner =
     [hello_spec\<lparr>spec_firstOfGroup := True\<rparr>, build_spec\<lparr>spec_firstOfGroup := True\<rparr>]"
  by (simp add: example_runner_def addCommands_seq_def addCommands_def new_CommandRunner_def
      hello_spec_def build_spec_def)

lemma plain_libs_toLowerCase: "toLowerCase plain_libs s = plain_toLowerCase s"
  by (simp add: plain_libs_def)

lemma plain_libs_toUpperCase: "toUpperCase plain_libs s = plain_toUpperCase s"
  by (simp add: plain_libs_def)

lemmas plain_lower =
  plain_libs_toLowerCase plain_toLowerCase_def plain_toLowerChar_def latin1_upper_def latin1_lower_def

lemmas plain_upper =
  plain_libs_toUpperCase plain_toUpperCase_def plain_toUpperChar_def latin1_upper_def latin1_lower_def
  sharp_s_def

lemma toUpperCase_Build: "toUpperCase plain_libs ''Build'' = ''BUILD''"
  by (simp add: plain_upper)

lemma toUpperCase_HELLO: "toUpperCase plain_libs ''HELLO'' = ''HELLO''"
  by (simp add: plain_upper)

lemma toLowerCase_build: "toLowerCase plain_libs ''build'' = ''build''"
  by (simp add: plain_lower)

lemma plain_toLowerChar_dash: "plain_toLowerChar c = CHR ''-'' \<longleftrightarrow> c = CHR ''-''"
  by (simp add: plain_toLowerChar_def latin1_upper_def latin1_lower_def)

lemma plain_toLowerCase_dash: "starts_with_dash (toLowerCase plain_libs s) = starts_with_dash s"
  by (cases s) (simp_all add: plain_libs_toLowerCase plain_toLowerCase_def plain_toLowerChar_dash)

section \<open>Properties of the registry\<close>

lemma check_duplicate_None:
  "check_duplicate spec specs = None \<longleftrightarrow> spec_normName spec \<notin> spec_normName ` set specs"
  by (induction specs) auto

lemma check_duplicate_Some:
  "check_duplicate spec specs = Some e \<Longrightarrow>
     e = new_Error (''duplicate command name '' @ quote @ spec_normName spec @ quote)"
  by (induction specs) (auto split: if_splits)

lemma addCommands_loop_distinct:
  "distinct (map spec_normName specs) \<Longrightarrow>
     distinct (map spec_normName (fst (addCommands_loop f grp specs)))"
proof (induction grp arbitrary: f specs)
  case Nil
  then show ?case by simp
next
  case (Cons spec rest)
  show ?case
  proof (cases "check_duplicate spec specs")
    case None
    then have "spec_normName spec \<notin> spec_normName ` set specs"
      by (simp add: check_duplicate_None)
    with Cons.prems have "distinct (map spec_normName (specs @ [spec\<lparr>spec_firstOfGroup := f\<rparr>]))"
      by auto
    from Cons.IH [OF this] None show ?thesis by simp
  next
    case (Some e)
    with Cons.prems show ?thesis by simp
  qed
qed

lemma addCommands_distinct:
  "distinct (map spec_normName (commandSpecs r)) \<Longrightarrow>
     distinct (map spec_normName (commandSpecs (fst (addCommands r grp))))"
  using addCommands_loop_distinct [of "commandSpecs r" True grp]
  by (cases "addCommands_loop True grp (commandSpecs r)") (simp add: addCommands_def)

lemma addCommands_seq_distinct:
  "distinct (map spec_normName (commandSpecs r)) \<Longrightarrow>
     distinct (map spec_normName (commandSpecs (addCommands_seq r groups)))"
  unfolding addCommands_seq_def
  by (induction groups arbitrary: r) (simp_all add: addCommands_distinct)

lemma addCommands_loop_throws:
  "(\<exists>s \<in> set grp. spec_normName s \<in> spec_normName ` set specs) \<or> \<not> distinct (map spec_normName grp) \<Longrightarrow>
     \<exists>s \<in> set grp. snd (addCommands_loop f grp specs) =
        Some (new_Error (''duplicate command name '' @ quote @ spec_normName s @ quote))"
proof (induction grp arbitrary: f specs)
  case Nil
  then show ?case by simp
next
  case (Cons spec rest)
  show ?case
  proof (cases "check_duplicate spec specs")
    case (Some e)
    then show ?thesis using check_duplicate_Some [OF Some] by simp
  next
    case None
    then have fresh: "spec_normName spec \<notin> spec_normName ` set specs"
      by (simp add: check_duplicate_None)
    let ?specs = "specs @ [spec\<lparr>spec_firstOfGroup := f\<rparr>]"
    have "(\<exists>s \<in> set rest. spec_normName s \<in> spec_normName ` set ?specs) \<or> \<not> distinct (map spec_normName rest)"
      using Cons.prems fresh by auto
    from Cons.IH [OF this, of False] None show ?thesis by auto
  qed
qed

text \<open>
  C6. Normalized names are unique in the registry after any sequence of \<open>addCommands\<close>
  calls on a new dispatcher, and every call keeps them unique. A call whose group holds
  a spec with the normalized name of a registered spec, or two specs with one normalized
  name, throws: the thrown value is a plain \<open>Error\<close> that names a spec of the group, not
  a \<open>CommandError\<close>, and it leaves \<open>addCommands\<close> as an exception (this function takes no
  completion callback).
\<close>

theorem registry_names_unique:
  fixes groups :: "'u command_spec list list"
  shows "distinct (map spec_normName (commandSpecs (addCommands_seq (new_CommandRunner w) groups)))
    \<and> (\<forall>r :: 'u runner. distinct (map spec_normName (commandSpecs r)) \<longrightarrow>
          distinct (map spec_normName (commandSpecs (fst (addCommands r grp)))))
    \<and> (\<forall>r :: 'u runner.
          (\<exists>s \<in> set grp. spec_normName s \<in> spec_normName ` set (commandSpecs r))
            \<or> \<not> distinct (map spec_normName grp) \<longrightarrow>
          (\<exists>s \<in> set grp. \<exists>e.
             snd (addCommands r grp) = Some e \<and>
             e = Err PlainError (''duplicate command name '' @ quote @ spec_normName s @ quote) \<and>
             \<not> instanceof_CommandError e))"
proof (intro conjI allI impI)
  have "distinct (map spec_normName (commandSpecs (new_CommandRunner w :: 'u runner)))"
    by (simp add: new_CommandRunner_def)
  then show "distinct (map spec_normName (commandSpecs (addCommands_seq (new_CommandRunner w) groups)))"
    by (rule addCommands_seq_distinct)
next
  fix r :: "'u runner"
  assume "distinct (map spec_normName (commandSpecs r))"
  then show "distinct (map spec_normName (commandSpecs (fst (addCommands r grp))))"
    by (rule addCommands_distinct)
next
  fix r :: "'u runner"
  assume dup: "(\<exists>s \<in> set grp. spec_normName s \<in> spec_normName ` set (commandSpecs r))
            \<or> \<not> distinct (map spec_normName grp)"
  from addCommands_loop_throws [OF dup, of True]
  obtain s where s: "s \<in> set grp"
    and thrown: "snd (addCommands_loop True grp (commandSpecs r)) =
        Some (new_Error (''duplicate command name '' @ quote @ spec_normName s @ quote))"
    by blast
  have "snd (addCommands r grp) = snd (addCommands_loop True grp (commandSpecs r))"
    by (cases "addCommands_loop True grp (commandSpecs r)") (simp add: addCommands_def)
  with thrown s show "\<exists>s \<in> set grp. \<exists>e.
             snd (addCommands r grp) = Some e \<and>
             e = Err PlainError (''duplicate command name '' @ quote @ spec_normName s @ quote) \<and>
             \<not> instanceof_CommandError e"
    by (auto simp: new_Error_def)
qed

theorem registry_names_unique_witness:
  "distinct (map spec_normName (commandSpecs (addCommands_seq (new_CommandRunner None) [[hello_spec], [build_spec]])))
   \<and> map spec_normName (commandSpecs (addCommands_seq (new_CommandRunner None) [[hello_spec], [build_spec]]))
       = [''hello'', ''build'']
   \<and> snd (addCommands (addCommands_seq (new_CommandRunner None) [[hello_spec], [build_spec]])
             [build_spec\<lparr>spec_name := ''BUILD''\<rparr>]) =
       Some (Err PlainError (''duplicate command name '' @ quote @ ''build'' @ quote))"
  using registry_names_unique [of None "[[hello_spec], [build_spec]]" "[build_spec\<lparr>spec_name := ''BUILD''\<rparr>]"]
  by (simp add: addCommands_seq_def addCommands_def new_CommandRunner_def hello_spec_def build_spec_def
      new_Error_def)

section \<open>Properties of the selection\<close>

lemma find_loop_absent:
  "commandName \<notin> spec_normName ` set specs \<Longrightarrow> find_loop specs commandName acc = acc"
  by (induction specs arbitrary: acc) auto

lemma find_loop_present:
  "distinct (map spec_normName specs) \<Longrightarrow> spec \<in> set specs \<Longrightarrow>
     find_loop specs (spec_normName spec) acc = Some spec"
proof (induction specs arbitrary: acc)
  case Nil
  then show ?case by simp
next
  case (Cons s rest)
  show ?case
  proof (cases "spec = s")
    case True
    with Cons.prems have "spec_normName spec \<notin> spec_normName ` set rest" by auto
    then show ?thesis using True by (simp add: find_loop_absent)
  next
    case False
    with Cons.prems have "spec \<in> set rest" "distinct (map spec_normName rest)" by auto
    then show ?thesis using Cons.IH by simp
  qed
qed

lemma match_name_nonempty: "match_name syn = Some name \<Longrightarrow> name \<noteq> []"
proof -
  assume m: "match_name syn = Some name"
  let ?t = "dropWhile (\<lambda>c. c = CHR '' '') syn"
  from m have t: "?t \<noteq> []" and name: "name = takeWhile (\<lambda>c. c \<noteq> CHR '' '') ?t"
    by (auto simp: match_name_def Let_def split: if_splits)
  from t have "hd ?t \<noteq> CHR '' ''" using hd_dropWhile [of "\<lambda>c. c = CHR '' ''" syn] by simp
  with t name show ?thesis by (cases ?t) auto
qed

lemma from_constructor_name:
  assumes "from_constructor lib spec"
  shows "spec_normName spec = toLowerCase lib (spec_name spec)" and "\<not> starts_with_dash (spec_name spec)"
    and "spec_name spec \<noteq> []"
proof -
  from assms obtain name where m: "match_name (spec_syntax spec) = Some name"
    and nd: "\<not> starts_with_dash name"
    and eq: "\<lparr>spec_name = name, spec_normName = toLowerCase lib name,
                    spec_syntax = spec_syntax spec, spec_summary = spec_summary spec,
                    spec_firstOfGroup = False, createCommand = createCommand spec\<rparr>
              = spec\<lparr>spec_firstOfGroup := False\<rparr>"
    by (auto simp: from_constructor_def new_CommandSpec_def split: option.splits if_splits)
  from arg_cong [OF eq, of spec_name] have n: "spec_name spec = name" by simp
  from arg_cong [OF eq, of spec_normName] have nn: "spec_normName spec = toLowerCase lib name" by simp
  from n nn show "spec_normName spec = toLowerCase lib (spec_name spec)" by simp
  from n nd show "\<not> starts_with_dash (spec_name spec)" by simp
  from n match_name_nonempty [OF m] show "spec_name spec \<noteq> []" by simp
qed

lemma from_constructor_flag:
  "from_constructor lib (spec\<lparr>spec_firstOfGroup := f\<rparr>) = from_constructor lib spec"
  by (simp add: from_constructor_def)

lemma addCommands_loop_members:
  "s \<in> set (fst (addCommands_loop f grp specs)) \<Longrightarrow>
     s \<in> set specs \<or> (\<exists>t \<in> set grp. \<exists>b. s = t\<lparr>spec_firstOfGroup := b\<rparr>)"
proof (induction grp arbitrary: f specs)
  case Nil
  then show ?case by simp
next
  case (Cons spec rest)
  show ?case
  proof (cases "check_duplicate spec specs")
    case None
    with Cons.prems have "s \<in> set (fst (addCommands_loop False rest (specs @ [spec\<lparr>spec_firstOfGroup := f\<rparr>])))"
      by simp
    from Cons.IH [OF this] show ?thesis by auto
  next
    case (Some e)
    with Cons.prems show ?thesis by simp
  qed
qed

lemma addCommands_seq_members:
  "s \<in> set (commandSpecs (addCommands_seq r groups)) \<Longrightarrow>
     s \<in> set (commandSpecs r) \<or> (\<exists>grp \<in> set groups. \<exists>t \<in> set grp. \<exists>b. s = t\<lparr>spec_firstOfGroup := b\<rparr>)"
proof (induction groups arbitrary: r)
  case Nil
  then show ?case by (simp add: addCommands_seq_def)
next
  case (Cons grp groups)
  let ?r = "fst (addCommands r grp)"
  from Cons.prems have "s \<in> set (commandSpecs (addCommands_seq ?r groups))"
    by (simp add: addCommands_seq_def)
  from Cons.IH [OF this] consider "s \<in> set (commandSpecs ?r)"
    | "\<exists>grp \<in> set groups. \<exists>t \<in> set grp. \<exists>b. s = t\<lparr>spec_firstOfGroup := b\<rparr>" by blast
  then show ?case
  proof cases
    case 1
    have "commandSpecs ?r = fst (addCommands_loop True grp (commandSpecs r))"
      by (cases "addCommands_loop True grp (commandSpecs r)") (simp add: addCommands_def)
    with 1 addCommands_loop_members [of s True grp "commandSpecs r"] show ?thesis by auto
  next
    case 2
    then show ?thesis by auto
  qed
qed

text \<open>
  Where the lookup succeeds. On a dispatcher set up by \<open>addCommands\<close> calls with specs
  that the constructor returned, take a registered spec and a first argument that does
  not begin with a dash and has the lower-case form of the spec's name. The lookup of
  \<open>run\<close> finds exactly that spec, and \<open>run\<close> continues on the named path with that spec
  and the rest of \<open>argv\<close>.
\<close>

lemma lookup_by_lower_case:
  fixes groups :: "'u command_spec list list"
  assumes constructed: "\<forall>grp \<in> set groups. \<forall>s \<in> set grp. from_constructor lib s"
    and registered: "spec \<in> set (commandSpecs (addCommands_seq (new_CommandRunner w) groups))"
    and same: "toLowerCase lib v = toLowerCase lib (spec_name spec)"
    and nodash: "\<not> starts_with_dash v"
  shows "find_loop (commandSpecs (addCommands_seq (new_CommandRunner w) groups)) (toLowerCase lib v) None
           = Some spec
    \<and> run lib m (addCommands_seq (new_CommandRunner w) groups) u (v # rest)
        = named_path lib m (addCommands_seq (new_CommandRunner w) groups) u spec rest"
proof -
  let ?r = "addCommands_seq (new_CommandRunner w) groups :: 'u runner"
  have "spec \<in> set (commandSpecs (new_CommandRunner w :: 'u runner)) \<or>
        (\<exists>grp \<in> set groups. \<exists>t \<in> set grp. \<exists>b. spec = t\<lparr>spec_firstOfGroup := b\<rparr>)"
    using registered by (rule addCommands_seq_members)
  then obtain t b where "from_constructor lib t" "spec = t\<lparr>spec_firstOfGroup := b\<rparr>"
    using constructed by (auto simp: new_CommandRunner_def)
  then have fc: "from_constructor lib spec" by (simp add: from_constructor_flag)
  have "distinct (map spec_normName (commandSpecs (new_CommandRunner w :: 'u runner)))"
    by (simp add: new_CommandRunner_def)
  then have "distinct (map spec_normName (commandSpecs ?r))" by (rule addCommands_seq_distinct)
  from find_loop_present [OF this registered]
  have "find_loop (commandSpecs ?r) (spec_normName spec) None = Some spec" .
  moreover have low: "toLowerCase lib v = spec_normName spec"
    using same from_constructor_name(1) [OF fc] by simp
  ultimately have found: "find_loop (commandSpecs ?r) (toLowerCase lib v) None = Some spec" by simp
  with nodash show ?thesis by (simp add: run_def)
qed

text \<open>
  For instance the command \<open>cole\<close> after U+00C9, registered under the lower-case form of
  its name, is found when the first argument is its upper-case form.
\<close>

lemma lookup_by_lower_case_example:
  "run plain_libs (CommandRunner_methods plain_libs)
       (addCommands_seq (new_CommandRunner None) [[ecole_spec]]) () [CHR 0xC9 # ''COLE'', ''x'']
     = named_path plain_libs (CommandRunner_methods plain_libs)
         (addCommands_seq (new_CommandRunner None) [[ecole_spec]]) ()
         (ecole_spec\<lparr>spec_firstOfGroup := True\<rparr>) [''x'']"
proof -
  have c: "\<forall>grp \<in> set [[ecole_spec]]. \<forall>s \<in> set grp. from_constructor plain_libs s"
    by (simp add: from_constructor_def new_CommandSpec_def match_name_def ecole_spec_def plain_lower)
  have r: "ecole_spec\<lparr>spec_firstOfGroup := True\<rparr>
            \<in> set (commandSpecs (addCommands_seq (new_CommandRunner None) [[ecole_spec]]))"
    by (simp add: addCommands_seq_def addCommands_def new_CommandRunner_def)
  have v: "toLowerCase plain_libs (CHR 0xC9 # ''COLE'')
             = toLowerCase plain_libs (spec_name (ecole_spec\<lparr>spec_firstOfGroup := True\<rparr>))"
    by (simp add: ecole_spec_def plain_lower)
  have d: "\<not> starts_with_dash (CHR 0xC9 # ''COLE'')" by simp
  from lookup_by_lower_case [OF c r v d, of "CommandRunner_methods plain_libs" "()" "[''x'']"]
  show ?thesis by simp
qed

text \<open>
  C4. The lookup of \<open>run\<close> compares the lower-case form of the first argument with the
  lower-case form of the name, so it finds the spec for a letter-case variant of the
  name only when the two lower-case forms are equal. They are not for the command
  named \<open>stra\<close>, sharp s, \<open>e\<close> and the variant \<open>STRASSE\<close>, the upper-case form of that name:
  the constructor accepts the name, \<open>addCommands\<close> registers the spec, and \<open>run\<close> with
  \<open>STRASSE\<close> as first argument selects no spec; it calls the completion callback with
  the usage error \<open>unrecognized command 'strasse'\<close>.
\<close>

theorem upper_case_variant_not_found:
  "new_CommandSpec plain_libs (''stra'' @ sharp_s @ ''e'') ''Names a street'' (\<lambda>u. (hello_command, u))
     = Inr strasse_spec
   \<and> addCommands (new_CommandRunner None) [strasse_spec]
     = (\<lparr>commandSpecs = [strasse_spec\<lparr>spec_firstOfGroup := True\<rparr>], helpWrapWidth = 80\<rparr>, None)
   \<and> toUpperCase plain_libs (spec_name strasse_spec) = ''STRASSE''
   \<and> toLowerCase plain_libs ''STRASSE'' = ''strasse''
   \<and> spec_normName strasse_spec = ''stra'' @ sharp_s @ ''e''
   \<and> run plain_libs (CommandRunner_methods plain_libs)
         (fst (addCommands (new_CommandRunner None) [strasse_spec])) () [''STRASSE'']
     = ([Next (Some (Err CommandUsageError (''unrecognized command '' @ quote @ ''strasse'' @ quote)))],
        Returned)"
proof (intro conjI)
  show "new_CommandSpec plain_libs (''stra'' @ sharp_s @ ''e'') ''Names a street'' (\<lambda>u. (hello_command, u))
     = Inr strasse_spec"
    by (simp add: new_CommandSpec_def match_name_def strasse_spec_def sharp_s_def plain_lower)
  show reg: "addCommands (new_CommandRunner None) [strasse_spec]
     = (\<lparr>commandSpecs = [strasse_spec\<lparr>spec_firstOfGroup := True\<rparr>], helpWrapWidth = 80\<rparr>, None)"
    by (simp add: addCommands_def new_CommandRunner_def DEFAULT_WRAP_WIDTH_def)
  show "toUpperCase plain_libs (spec_name strasse_spec) = ''STRASSE''"
    by (simp add: strasse_spec_def plain_upper)
  show low: "toLowerCase plain_libs ''STRASSE'' = ''strasse''"
    by (simp add: plain_lower)
  show "spec_normName strasse_spec = ''stra'' @ sharp_s @ ''e''"
    by (simp add: strasse_spec_def)
  show "run plain_libs (CommandRunner_methods plain_libs)
         (fst (addCommands (new_CommandRunner None) [strasse_spec])) () [''STRASSE'']
     = ([Next (Some (Err CommandUsageError (''unrecognized command '' @ quote @ ''strasse'' @ quote)))],
        Returned)"
  proof -
    have other: "spec_normName strasse_spec \<noteq> ''strasse''"
      by (simp add: strasse_spec_def sharp_s_def)
    show ?thesis
      by (simp add: reg run_def low other new_CommandUsageError_def)
  qed
qed

text \<open>
  C7. When the first element of \<open>argv\<close> does not begin with a dash and its lower-case form
  is the normalized name of no registered spec, \<open>run\<close> does one thing: it calls the
  completion callback with a \<open>CommandUsageError\<close> whose message is
  \<open>unrecognized command\<close> followed by the lower-case form of that element in quotes. No
  hook of any handler is called.
\<close>

theorem unrecognized_command:
  assumes "\<not> starts_with_dash a"
    and "toLowerCase lib a \<notin> spec_normName ` set (commandSpecs r)"
  shows "\<exists>e. run lib m r u (a # rest) = ([Next (Some e)], Returned)
    \<and> err_class e = CommandUsageError
    \<and> instanceof_CommandUsageError e
    \<and> message e = ''unrecognized command '' @ quote @ toLowerCase lib a @ quote
    \<and> (\<forall>h. Invoke h \<notin> set (fst (run lib m r u (a # rest))))"
  using assms
  by (simp add: run_def find_loop_absent new_CommandUsageError_def)

theorem unrecognized_command_witness:
  "run plain_libs (CommandRunner_methods plain_libs) example_runner () [''Bogus'', ''-h'']
     = ([Next (Some (Err CommandUsageError (''unrecognized command '' @ quote @ ''bogus'' @ quote)))],
        Returned)"
proof -
  have d: "\<not> starts_with_dash ''Bogus''" by simp
  have n: "toLowerCase plain_libs ''Bogus'' \<notin> spec_normName ` set (commandSpecs example_runner)"
    by (simp add: example_runner_def addCommands_seq_def addCommands_def new_CommandRunner_def
        hello_spec_def build_spec_def plain_lower)
  have l: "toLowerCase plain_libs ''Bogus'' = ''bogus''"
    by (simp add: plain_lower)
  from unrecognized_command [where lib = plain_libs and a = "''Bogus''" and r = example_runner
      and m = "CommandRunner_methods plain_libs" and u = "()" and rest = "[''-h'']", OF d n]
  obtain e where "run plain_libs (CommandRunner_methods plain_libs) example_runner () [''Bogus'', ''-h'']
       = ([Next (Some e)], Returned)"
    and "err_class e = CommandUsageError"
    and "message e = ''unrecognized command '' @ quote @ toLowerCase plain_libs ''Bogus'' @ quote"
    by blast
  then show ?thesis using l by (cases e) simp
qed

lemma run_named:
  assumes "spec \<in> set (commandSpecs r)" and "distinct (map spec_normName (commandSpecs r))"
    and "toLowerCase lib a = spec_normName spec" and "\<not> starts_with_dash a"
  shows "run lib m r u (a # rest) = named_path lib m r u spec rest"
  using assms find_loop_present [of "commandSpecs r" spec None]
  by (simp add: run_def)

lemma run_default:
  assumes "argv = [] \<or> starts_with_dash (hd argv)"
  shows "run lib m r u argv = default_path lib m r u argv"
  using assms by (cases argv) (auto simp: run_def)

text \<open>
  C1. Take a registered spec that \<open>argv\<close> selects, whose handler's option hook returns
  normally, with no help requested. When \<open>parseArgs\<close> returns normally and leaves the
  positional list non-empty, \<open>run\<close> calls the completion callback once, with an
  \<open>UnexpectedArgError\<close> whose message quotes the text of the first leftover positional,
  and returns; \<open>doCommand\<close> is not called.
\<close>

theorem leftover_positional_rejected:
  assumes "spec \<in> set (commandSpecs r)" and "distinct (map spec_normName (commandSpecs r))"
    and "toLowerCase lib a = spec_normName spec" and "\<not> starts_with_dash a"
    and "createCommand spec u = (c, u1)"
    and "nc_addOptions c u1 configOptions = Inr (options, u2)"
    and "\<not> args_help (Minimist lib rest options)"
    and "nc_parseArgs c u2 (stringify_positionals (Minimist lib rest options)) = Inr (args2, u3)"
    and "pa_positionals args2 = arg0 # others"
  shows "run lib m r u (a # rest) =
           ([Invoke H_createCommand, Invoke H_addOptions, Invoke H_parseArgs,
             Next (Some (Err UnexpectedArgError (''UnexpectedArgument: \"'' @ js_String arg0 @ ''\"'')))],
            Returned)
    \<and> Invoke H_doCommand \<notin> set (fst (run lib m r u (a # rest)))"
proof -
  have "run lib m r u (a # rest) = named_path lib m r u spec rest"
    using assms(1-4) by (rule run_named)
  then show ?thesis using assms(5-9)
    by (simp add: named_path_def run_args_def after_def new_UnexpectedArgError_def)
qed

theorem leftover_positional_rejected_witness:
  "run plain_libs (CommandRunner_methods plain_libs) example_runner () [''build'', ''extra'', ''more'']
     = ([Invoke H_createCommand, Invoke H_addOptions, Invoke H_parseArgs,
         Next (Some (Err UnexpectedArgError (''UnexpectedArgument: \"extra\"'')))],
        Returned)"
proof -
  let ?spec = "build_spec\<lparr>spec_firstOfGroup := True\<rparr>"
  let ?args = "\<lparr>pa_flags = [(''h'', JBool False), (''help'', JBool False)],
                pa_positionals = [JStr ''extra'', JStr ''more'']\<rparr>"
  have specs: "commandSpecs example_runner = [hello_spec\<lparr>spec_firstOfGroup := True\<rparr>, ?spec]"
    by (simp add: example_runner_def addCommands_seq_def addCommands_def new_CommandRunner_def
        hello_spec_def build_spec_def)
  have 1: "?spec \<in> set (commandSpecs example_runner)" by (simp add: specs)
  have 2: "distinct (map spec_normName (commandSpecs example_runner))"
    by (simp add: specs hello_spec_def build_spec_def)
  have 3: "toLowerCase plain_libs ''build'' = spec_normName ?spec"
    by (simp add: build_spec_def plain_lower)
  have 4: "\<not> starts_with_dash ''build''" by simp
  have 5: "createCommand ?spec () = (hello_command, ())" by (simp add: build_spec_def)
  have 6: "nc_addOptions hello_command () configOptions = Inr (configOptions, ())"
    by (simp add: hello_command_def NamedCommand_addOptions_def)
  have p: "Minimist plain_libs [''extra'', ''more''] configOptions = ?args"
    by (simp add: plain_libs_def plain_Minimist_def)
  have 7: "\<not> args_help (Minimist plain_libs [''extra'', ''more''] configOptions)"
    by (simp add: p args_help_def)
  have 8: "nc_parseArgs hello_command () (stringify_positionals (Minimist plain_libs [''extra'', ''more''] configOptions))
             = Inr (?args, ())"
    by (simp add: p hello_command_def NamedCommand_parseArgs_def stringify_positionals_def)
  have 9: "pa_positionals ?args = JStr ''extra'' # [JStr ''more'']" by simp
  from leftover_positional_rejected [OF 1 2 3 4 5 6 7 8 9, of "CommandRunner_methods plain_libs"]
  show ?thesis by simp
qed

text \<open>
  C2. When the option parser is reached and its result has the help flag set, \<open>run\<close>
  writes the help text, wrapped at the configured width, to standard output and calls
  the completion callback with no error; neither the validation hook nor the execution
  hook is called. On the named path (a registered spec is selected and its handler's
  option hook returned) the text is the handler's \<open>getHelp\<close>; on the default path (\<open>argv\<close>
  is empty or starts with a dash, and \<open>addDefaultOptions\<close> returned) it is the
  dispatcher's \<open>getHelp\<close>.
\<close>

theorem help_short_circuit:
  shows "(spec \<in> set (commandSpecs r) \<and> distinct (map spec_normName (commandSpecs r))
          \<and> toLowerCase lib a = spec_normName spec \<and> \<not> starts_with_dash a
          \<and> createCommand spec u = (c, u1)
          \<and> nc_addOptions c u1 configOptions = Inr (options, u2)
          \<and> args_help (Minimist lib rest options)
        \<longrightarrow> run lib m r u (a # rest) =
              ([Invoke H_createCommand, Invoke H_addOptions, Invoke H_getHelp,
                Stdout (wrapText lib
                          (nc_getHelp c (cr_getHelpSummaryEntry (cr_help m) spec) u2 (helpWrapWidth r))
                          (helpWrapWidth r) True),
                Next None], Returned))
    \<and> ((argv = [] \<or> starts_with_dash (hd argv))
          \<and> cr_addDefaultOptions m u configOptions = Inr (options', u')
          \<and> args_help (Minimist lib argv options')
        \<longrightarrow> run lib m r u argv =
              ([Invoke H_addDefaultOptions, Invoke H_getHelpAll,
                Stdout (wrapText lib (cr_getHelp m (cr_help m) r (helpWrapWidth r))
                          (helpWrapWidth r) True),
                Next None], Returned))"
proof (intro conjI impI)
  assume h: "spec \<in> set (commandSpecs r) \<and> distinct (map spec_normName (commandSpecs r))
          \<and> toLowerCase lib a = spec_normName spec \<and> \<not> starts_with_dash a
          \<and> createCommand spec u = (c, u1)
          \<and> nc_addOptions c u1 configOptions = Inr (options, u2)
          \<and> args_help (Minimist lib rest options)"
  then have "run lib m r u (a # rest) = named_path lib m r u spec rest"
    by (simp add: run_named)
  with h show "run lib m r u (a # rest) =
              ([Invoke H_createCommand, Invoke H_addOptions, Invoke H_getHelp,
                Stdout (wrapText lib
                          (nc_getHelp c (cr_getHelpSummaryEntry (cr_help m) spec) u2 (helpWrapWidth r))
                          (helpWrapWidth r) True),
                Next None], Returned)"
    by (simp add: named_path_def run_args_def after_def)
next
  assume h: "(argv = [] \<or> starts_with_dash (hd argv))
          \<and> cr_addDefaultOptions m u configOptions = Inr (options', u')
          \<and> args_help (Minimist lib argv options')"
  then have "run lib m r u argv = default_path lib m r u argv"
    by (simp add: run_default)
  with h show "run lib m r u argv =
              ([Invoke H_addDefaultOptions, Invoke H_getHelpAll,
                Stdout (wrapText lib (cr_getHelp m (cr_help m) r (helpWrapWidth r))
                          (helpWrapWidth r) True),
                Next None], Returned)"
    by (simp add: default_path_def run_args_def after_def)
qed

theorem help_short_circuit_witness:
  "run plain_libs (CommandRunner_methods plain_libs) example_runner () [''build'', ''x'', ''-h'']
     = ([Invoke H_createCommand, Invoke H_addOptions, Invoke H_getHelp,
         Stdout (''BUILD <target>'' @ nl @ ''  Builds the target'' @ nl), Next None], Returned)
   \<and> run plain_libs (CommandRunner_methods plain_libs) example_runner () [''--help'']
     = ([Invoke H_addDefaultOptions, Invoke H_getHelpAll,
         Stdout (''This tool supports the following commands:'' @ nl
                  @ nl @ ''HELLO'' @ nl @ ''  Says hello back to you'' @ nl
                  @ nl @ ''BUILD <target>'' @ nl @ ''  Builds the target'' @ nl
                  @ nl),
         Next None], Returned)"
proof -
  let ?m = "CommandRunner_methods plain_libs :: unit runner_methods"
  let ?spec = "build_spec\<lparr>spec_firstOfGroup := True\<rparr>"
  have named: "?spec \<in> set (commandSpecs example_runner) \<and> distinct (map spec_normName (commandSpecs example_runner))
          \<and> toLowerCase plain_libs ''build'' = spec_normName ?spec \<and> \<not> starts_with_dash ''build''
          \<and> createCommand ?spec () = (hello_command, ())
          \<and> nc_addOptions hello_command () configOptions = Inr (configOptions, ())
          \<and> args_help (Minimist plain_libs [''x'', ''-h''] configOptions)"
    by (simp add: example_specs plain_lower hello_spec_def build_spec_def hello_command_def
        NamedCommand_addOptions_def plain_libs_def plain_Minimist_def args_help_def)
  have dflt: "([''--help''] = [] \<or> starts_with_dash (hd [''--help'']))
          \<and> cr_addDefaultOptions ?m () configOptions = Inr (configOptions, ())
          \<and> args_help (Minimist plain_libs [''--help''] configOptions)"
    by (simp add: CommandRunner_methods_def CommandRunner_addDefaultOptions_def
        plain_libs_def plain_Minimist_def args_help_def)
  have t1: "wrapText plain_libs
              (nc_getHelp hello_command (cr_getHelpSummaryEntry (cr_help ?m) ?spec) () (helpWrapWidth example_runner))
              (helpWrapWidth example_runner) True
            = ''BUILD <target>'' @ nl @ ''  Builds the target'' @ nl"
    by (simp add: plain_libs_def hello_command_def NamedCommand_getHelp_def CommandRunner_methods_def
        CommandRunner_help_def CommandRunner_getHelpSummaryEntry_def build_spec_def plain_upper)
  have t2: "wrapText plain_libs (cr_getHelp ?m (cr_help ?m) example_runner (helpWrapWidth example_runner))
              (helpWrapWidth example_runner) True
            = ''This tool supports the following commands:'' @ nl
                  @ nl @ ''HELLO'' @ nl @ ''  Says hello back to you'' @ nl
                  @ nl @ ''BUILD <target>'' @ nl @ ''  Builds the target'' @ nl
                  @ nl"
    by (simp add: plain_libs_def CommandRunner_methods_def CommandRunner_getHelp_def example_specs
        CommandRunner_help_def CommandRunner_getHelpSummaryEntry_def CommandRunner_getHelpIntro_def
        CommandRunner_getHelpTrailer_def build_spec_def hello_spec_def plain_upper)
  from help_short_circuit [where spec = ?spec and r = example_runner and lib = plain_libs
      and a = "''build''" and u = "()" and c = hello_command and ?u1.0 = "()" and options = configOptions
      and ?u2.0 = "()" and rest = "[''x'', ''-h'']" and m = ?m and argv = "[''--help'']"
      and options' = configOptions and u' = "()"]
    named dflt
  show ?thesis by (simp only: t1 t2 simp_thms)
qed

text \<open>
  C3, as the claim states it, fails: a handler whose \<open>parseArgs\<close> throws a \<open>CommandError\<close>
  that is not a usage error does not make \<open>run\<close> throw. \<open>run\<close> passes the error to the
  completion callback and returns.
\<close>

theorem command_error_is_forwarded:
  "\<not> instanceof_CommandUsageError (new_CommandError ''no input'')
   \<and> run plain_libs (CommandRunner_methods plain_libs)
         (fst (addCommands (new_CommandRunner None) [failing_spec (new_CommandError ''no input'')]))
         () [''check'']
       = ([Invoke H_createCommand, Invoke H_addOptions, Invoke H_parseArgs,
           Next (Some (new_CommandError ''no input''))], Returned)"
  by (simp add: run_def named_path_def run_args_def after_def addCommands_def new_CommandRunner_def
      failing_spec_def failing_command_def hello_command_def NamedCommand_addOptions_def
      plain_libs_def plain_Minimist_def args_help_def new_CommandError_def
      plain_lower)

text \<open>
  C3, amended. When the validation hook throws, \<open>run\<close> looks at the class of the thrown
  value. An instance of \<open>CommandError\<close> (a \<open>CommandError\<close>, a \<open>CommandUsageError\<close> or an
  \<open>UnexpectedArgError\<close>) is passed, as it is, to the completion callback and \<open>run\<close>
  returns. Any other value leaves \<open>run\<close> as an exception and the callback is not
  called. This holds for \<open>parseArgs\<close> on the named path and for \<open>parseDefaultArgs\<close> on the
  default path.
\<close>

theorem validation_failure_routing:
  shows "(spec \<in> set (commandSpecs r) \<and> distinct (map spec_normName (commandSpecs r))
          \<and> toLowerCase lib a = spec_normName spec \<and> \<not> starts_with_dash a
          \<and> createCommand spec u = (c, u1)
          \<and> nc_addOptions c u1 configOptions = Inr (options, u2)
          \<and> \<not> args_help (Minimist lib rest options)
          \<and> nc_parseArgs c u2 (stringify_positionals (Minimist lib rest options)) = Inl err
        \<longrightarrow> run lib m r u (a # rest) =
              (if instanceof_CommandError err
               then ([Invoke H_createCommand, Invoke H_addOptions, Invoke H_parseArgs,
                      Next (Some err)], Returned)
               else ([Invoke H_createCommand, Invoke H_addOptions, Invoke H_parseArgs], Threw err)))
    \<and> ((argv = [] \<or> starts_with_dash (hd argv))
          \<and> cr_addDefaultOptions m u configOptions = Inr (options', u')
          \<and> \<not> args_help (Minimist lib argv options')
          \<and> cr_parseDefaultArgs m u' (stringify_positionals (Minimist lib argv options')) = Inl err'
        \<longrightarrow> run lib m r u argv =
              (if instanceof_CommandError err'
               then ([Invoke H_addDefaultOptions, Invoke H_parseDefaultArgs, Next (Some err')], Returned)
               else ([Invoke H_addDefaultOptions, Invoke H_parseDefaultArgs], Threw err')))"
proof (intro conjI impI)
  assume h: "spec \<in> set (commandSpecs r) \<and> distinct (map spec_normName (commandSpecs r))
          \<and> toLowerCase lib a = spec_normName spec \<and> \<not> starts_with_dash a
          \<and> createCommand spec u = (c, u1)
          \<and> nc_addOptions c u1 configOptions = Inr (options, u2)
          \<and> \<not> args_help (Minimist lib rest options)
          \<and> nc_parseArgs c u2 (stringify_positionals (Minimist lib rest options)) = Inl err"
  then have "run lib m r u (a # rest) = named_path lib m r u spec rest"
    by (simp add: run_named)
  with h show "run lib m r u (a # rest) =
              (if instanceof_CommandError err
               then ([Invoke H_createCommand, Invoke H_addOptions, Invoke H_parseArgs,
                      Next (Some err)], Returned)
               else ([Invoke H_createCommand, Invoke H_addOptions, Invoke H_parseArgs], Threw err))"
    by (simp add: named_path_def run_args_def after_def)
next
  assume h: "(argv = [] \<or> starts_with_dash (hd argv))
          \<and> cr_addDefaultOptions m u configOptions = Inr (options', u')
          \<and> \<not> args_help (Minimist lib argv options')
          \<and> cr_parseDefaultArgs m u' (stringify_positionals (Minimist lib argv options')) = Inl err'"
  then have "run lib m r u argv = default_path lib m r u argv"
    by (simp add: run_default)
  with h show "run lib m r u argv =
              (if instanceof_CommandError err'
               then ([Invoke H_addDefaultOptions, Invoke H_parseDefaultArgs, Next (Some err')], Returned)
               else ([Invoke H_addDefaultOptions, Invoke H_parseDefaultArgs], Threw err'))"
    by (simp add: default_path_def run_args_def after_def)
qed

theorem validation_failure_routing_witness:
  "run plain_libs (CommandRunner_methods plain_libs)
       (fst (addCommands (new_CommandRunner None) [failing_spec (new_Error ''defect'')])) () [''check'']
     = ([Invoke H_createCommand, Invoke H_addOptions, Invoke H_parseArgs], Threw (new_Error ''defect''))
   \<and> run plain_libs
       ((CommandRunner_methods plain_libs)\<lparr>cr_parseDefaultArgs := (\<lambda>u args. Inl (new_CommandUsageError ''no file''))\<rparr>)
       example_runner () [''-v'']
     = ([Invoke H_addDefaultOptions, Invoke H_parseDefaultArgs, Next (Some (new_CommandUsageError ''no file''))],
        Returned)"
proof -
  let ?e = "new_Error ''defect''"
  let ?spec = "(failing_spec ?e)\<lparr>spec_firstOfGroup := True\<rparr>"
  let ?r = "fst (addCommands (new_CommandRunner None) [failing_spec ?e])"
  let ?m = "(CommandRunner_methods plain_libs)\<lparr>cr_parseDefaultArgs := (\<lambda>u args. Inl (new_CommandUsageError ''no file''))\<rparr>
              :: unit runner_methods"
  have specs: "commandSpecs ?r = [?spec]"
    by (simp add: addCommands_def new_CommandRunner_def)
  have named: "?spec \<in> set (commandSpecs ?r) \<and> distinct (map spec_normName (commandSpecs ?r))
          \<and> toLowerCase plain_libs ''check'' = spec_normName ?spec \<and> \<not> starts_with_dash ''check''
          \<and> createCommand ?spec () = (failing_command ?e, ())
          \<and> nc_addOptions (failing_command ?e) () configOptions = Inr (configOptions, ())
          \<and> \<not> args_help (Minimist plain_libs [] configOptions)
          \<and> nc_parseArgs (failing_command ?e) () (stringify_positionals (Minimist plain_libs [] configOptions))
              = Inl ?e"
    by (simp add: specs)
       (simp add: failing_spec_def failing_command_def hello_command_def NamedCommand_addOptions_def
        plain_libs_def plain_Minimist_def args_help_def
        plain_lower)
  have dflt: "([''-v''] = [] \<or> starts_with_dash (hd [''-v'']))
          \<and> cr_addDefaultOptions ?m () configOptions = Inr (configOptions, ())
          \<and> \<not> args_help (Minimist plain_libs [''-v''] configOptions)
          \<and> cr_parseDefaultArgs ?m () (stringify_positionals (Minimist plain_libs [''-v''] configOptions))
              = Inl (new_CommandUsageError ''no file'')"
    by (simp add: CommandRunner_methods_def CommandRunner_addDefaultOptions_def
        plain_libs_def plain_Minimist_def args_help_def)
  have k1: "\<not> instanceof_CommandError ?e" by (simp add: new_Error_def)
  have k2: "instanceof_CommandError (new_CommandUsageError ''no file'')"
    by (simp add: new_CommandUsageError_def)
  from validation_failure_routing [where spec = ?spec and r = ?r and lib = plain_libs
      and a = "''check''" and u = "()" and c = "failing_command ?e" and ?u1.0 = "()"
      and options = configOptions and ?u2.0 = "()" and rest = "[]" and err = ?e
      and m = "CommandRunner_methods plain_libs" and argv = "[''-v'']"]
    named
  have a: "run plain_libs (CommandRunner_methods plain_libs) ?r () [''check'']
     = ([Invoke H_createCommand, Invoke H_addOptions, Invoke H_parseArgs], Threw ?e)"
    by (simp only: k1 if_False simp_thms)
  from validation_failure_routing [where r = example_runner and lib = plain_libs and u = "()"
      and m = ?m and argv = "[''-v'']" and options' = configOptions and u' = "()"
      and err' = "new_CommandUsageError ''no file''"]
    dflt
  have b: "run plain_libs ?m example_runner () [''-v'']
     = ([Invoke H_addDefaultOptions, Invoke H_parseDefaultArgs, Next (Some (new_CommandUsageError ''no file''))],
        Returned)"
    by (simp only: k2 if_True simp_thms)
  from a b show ?thesis by (simp only: simp_thms)
qed

section \<open>Properties of the default command\<close>

text \<open>
  C8. The \<open>doDefaultCommand\<close> of the base class calls the completion callback exactly
  once and always with an error: a \<open>CommandUsageError\<close> with the message
  \<open>Missing command argument\<close> when at least one command is registered, a plain \<open>Error\<close>
  with the message \<open>Default command not implemented\<close> when none is. A dispatcher that
  overrides nothing reaches this hook from \<open>run\<close> on the default path when no help is
  requested and no positional is left, and \<open>run\<close> then ends with that call.
\<close>

theorem default_command_fails:
  shows "(length (commandSpecs r) > 0 \<longrightarrow>
            CommandRunner_doDefaultCommand r u args =
              ([Next (Some (Err CommandUsageError ''Missing command argument''))], Returned)
            \<and> instanceof_CommandUsageError (Err CommandUsageError ''Missing command argument''))
    \<and> (commandSpecs r = [] \<longrightarrow>
            CommandRunner_doDefaultCommand r u args =
              ([Next (Some (Err PlainError ''Default command not implemented''))], Returned))
    \<and> Next None \<notin> set (fst (CommandRunner_doDefaultCommand r u args))
    \<and> (\<exists>e. fst (CommandRunner_doDefaultCommand r u args) = [Next (Some e)])
    \<and> ((argv = [] \<or> starts_with_dash (hd argv))
          \<and> \<not> args_help (Minimist lib argv configOptions)
          \<and> pa_positionals (Minimist lib argv configOptions) = []
        \<longrightarrow> run lib (CommandRunner_methods lib) r u argv =
              ([Invoke H_addDefaultOptions, Invoke H_parseDefaultArgs, Invoke H_doDefaultCommand]
                 @ fst (CommandRunner_doDefaultCommand r u (stringify_positionals (Minimist lib argv configOptions))),
               Returned))"
proof (intro conjI impI)
  assume h: "(argv = [] \<or> starts_with_dash (hd argv))
          \<and> \<not> args_help (Minimist lib argv configOptions)
          \<and> pa_positionals (Minimist lib argv configOptions) = []"
  then have "run lib (CommandRunner_methods lib) r u argv = default_path lib (CommandRunner_methods lib) r u argv"
    by (simp add: run_default)
  with h show "run lib (CommandRunner_methods lib) r u argv =
              ([Invoke H_addDefaultOptions, Invoke H_parseDefaultArgs, Invoke H_doDefaultCommand]
                 @ fst (CommandRunner_doDefaultCommand r u (stringify_positionals (Minimist lib argv configOptions))),
               Returned)"
    by (simp add: default_path_def run_args_def after_def CommandRunner_methods_def
        CommandRunner_addDefaultOptions_def CommandRunner_parseDefaultArgs_def
        stringify_positionals_def CommandRunner_doDefaultCommand_def)
qed (simp_all add: CommandRunner_doDefaultCommand_def new_CommandUsageError_def new_Error_def)

theorem default_command_fails_witness:
  "CommandRunner_doDefaultCommand example_runner () \<lparr>pa_flags = [], pa_positionals = []\<rparr> =
     ([Next (Some (Err CommandUsageError ''Missing command argument''))], Returned)
   \<and> CommandRunner_doDefaultCommand (new_CommandRunner None :: unit runner) () \<lparr>pa_flags = [], pa_positionals = []\<rparr> =
     ([Next (Some (Err PlainError ''Default command not implemented''))], Returned)
   \<and> run plain_libs (CommandRunner_methods plain_libs) (new_CommandRunner None :: unit runner) () []
     = ([Invoke H_addDefaultOptions, Invoke H_parseDefaultArgs, Invoke H_doDefaultCommand,
         Next (Some (Err PlainError ''Default command not implemented''))], Returned)
   \<and> run plain_libs (CommandRunner_methods plain_libs) example_runner () []
     = ([Invoke H_addDefaultOptions, Invoke H_parseDefaultArgs, Invoke H_doDefaultCommand,
         Next (Some (Err CommandUsageError ''Missing command argument''))], Returned)"
proof -
  have p: "([] = [] \<or> starts_with_dash (hd []))
          \<and> \<not> args_help (Minimist plain_libs [] configOptions)
          \<and> pa_positionals (Minimist plain_libs [] configOptions) = []"
    by (simp add: plain_libs_def plain_Minimist_def args_help_def)
  have n: "length (commandSpecs example_runner) > 0" by (simp add: example_specs)
  have e: "commandSpecs (new_CommandRunner None :: unit runner) = []" by (simp add: new_CommandRunner_def)
  show ?thesis
    using default_command_fails [of example_runner "()" "\<lparr>pa_flags = [], pa_positionals = []\<rparr>" "[]" plain_libs]
      default_command_fails [of "new_CommandRunner None :: unit runner" "()" "\<lparr>pa_flags = [], pa_positionals = []\<rparr>" "[]" plain_libs]
      default_command_fails [of example_runner "()" "stringify_positionals (Minimist plain_libs [] configOptions)" "[]" plain_libs]
      default_command_fails [of "new_CommandRunner None :: unit runner" "()" "stringify_positionals (Minimist plain_libs [] configOptions)" "[]" plain_libs]
      p n e
    by simp
qed

text \<open>
  C10. With no command registered, the error that the \<open>doDefaultCommand\<close> of the base
  class passes to the completion callback is a plain \<open>Error\<close>: it is an instance neither
  of \<open>CommandError\<close> nor of \<open>CommandUsageError\<close>. The callback of the demo, which tests for
  these two classes, reports nothing for it and throws it again.
\<close>

theorem not_implemented_is_plain_error:
  assumes "commandSpecs r = []"
  shows "\<exists>e. CommandRunner_doDefaultCommand r u args = ([Next (Some e)], Returned)
    \<and> err_class e = PlainError
    \<and> \<not> instanceof_CommandError e
    \<and> \<not> instanceof_CommandUsageError e
    \<and> demo_callback (Some e) = ([], Threw e)"
  using assms
  by (simp add: CommandRunner_doDefaultCommand_def new_Error_def demo_callback_def)

theorem not_implemented_is_plain_error_witness:
  "\<exists>e. CommandRunner_doDefaultCommand (new_CommandRunner None :: unit runner) () \<lparr>pa_flags = [], pa_positionals = []\<rparr>
          = ([Next (Some e)], Returned)
    \<and> err_class e = PlainError
    \<and> demo_callback (Some e) = ([], Threw e)"
proof -
  have e: "commandSpecs (new_CommandRunner None :: unit runner) = []" by (simp add: new_CommandRunner_def)
  from not_implemented_is_plain_error [OF e, of "()" "\<lparr>pa_flags = [], pa_positionals = []\<rparr>"]
  show ?thesis by blast
qed

section \<open>Properties of the aggregate help\<close>

lemma getHelp_loop_concat:
  "getHelp_loop h rightMargin specs acc =
     acc @ concat (map (\<lambda>spec. (if spec_firstOfGroup spec then nl else [])
                               @ cr_getHelpSummaryEntry h spec rightMargin) specs)"
  by (induction specs arbitrary: acc) simp_all

lemma addCommands_loop_fresh:
  "distinct (map spec_normName grp) \<Longrightarrow>
   spec_normName ` set grp \<inter> spec_normName ` set specs = {} \<Longrightarrow>
     addCommands_loop f grp specs =
       (specs @ (case grp of [] \<Rightarrow> []
                 | s # rest \<Rightarrow> s\<lparr>spec_firstOfGroup := f\<rparr> # map (\<lambda>s. s\<lparr>spec_firstOfGroup := False\<rparr>) rest),
        None)"
proof (induction grp arbitrary: f specs)
  case Nil
  then show ?case by simp
next
  case (Cons spec rest)
  have fresh: "check_duplicate spec specs = None"
    using Cons.prems by (auto simp: check_duplicate_None)
  let ?specs = "specs @ [spec\<lparr>spec_firstOfGroup := f\<rparr>]"
  have "distinct (map spec_normName rest)" "spec_normName ` set rest \<inter> spec_normName ` set ?specs = {}"
    using Cons.prems by auto
  from Cons.IH [OF this, of False] fresh show ?case
    by (cases rest) auto
qed

lemma addCommands_fresh:
  assumes "distinct (map spec_normName grp)"
    and "spec_normName ` set grp \<inter> spec_normName ` set (commandSpecs r) = {}"
  shows "addCommands r grp = (r\<lparr>commandSpecs := commandSpecs r @ stored_group grp\<rparr>, None)"
  using addCommands_loop_fresh [OF assms, of True]
  by (simp add: addCommands_def stored_group_def)

lemma stored_group_names: "map spec_normName (stored_group grp) = map spec_normName grp"
  by (cases grp) (simp_all add: stored_group_def comp_def)

lemma addCommands_seq_fresh:
  "distinct (map spec_normName (commandSpecs r @ concat groups)) \<Longrightarrow>
     commandSpecs (addCommands_seq r groups) = commandSpecs r @ concat (map stored_group groups)"
proof (induction groups arbitrary: r)
  case Nil
  then show ?case by (simp add: addCommands_seq_def)
next
  case (Cons grp groups)
  from Cons.prems have d: "distinct (map spec_normName grp)"
    and i: "spec_normName ` set grp \<inter> spec_normName ` set (commandSpecs r) = {}"
    by auto
  let ?r = "r\<lparr>commandSpecs := commandSpecs r @ stored_group grp\<rparr>"
  have step: "fst (addCommands r grp) = ?r" by (simp add: addCommands_fresh [OF d i])
  have "map spec_normName (commandSpecs ?r @ concat groups)
          = map spec_normName (commandSpecs r @ concat (grp # groups))"
    by (simp add: stored_group_names)
  with Cons.prems have "distinct (map spec_normName (commandSpecs ?r @ concat groups))"
    by (simp only:)
  from Cons.IH [OF this] step show ?case by (simp add: addCommands_seq_def)
qed

lemma base_entry_ignores_flag:
  "CommandRunner_getHelpSummaryEntry lib (spec\<lparr>spec_firstOfGroup := b\<rparr>) rightMargin
     = CommandRunner_getHelpSummaryEntry lib spec rightMargin"
  by (simp add: CommandRunner_getHelpSummaryEntry_def)

lemma stored_group_entries:
  "concat (map (\<lambda>spec. (if spec_firstOfGroup spec then nl else [])
                  @ CommandRunner_getHelpSummaryEntry lib spec rightMargin) (stored_group grp))
     = (if grp = [] then []
        else nl @ concat (map (\<lambda>spec. CommandRunner_getHelpSummaryEntry lib spec rightMargin) grp))"
  by (cases grp) (simp_all add: stored_group_def base_entry_ignores_flag comp_def)

text \<open>
  C9, as the claim states it, fails on the empty registry: \<open>getHelp\<close> does not return the
  introduction followed by the trailer there.
\<close>

theorem help_of_empty_registry_differs:
  "CommandRunner_getHelp (CommandRunner_help plain_libs) (new_CommandRunner None :: unit runner) 80
     \<noteq> help_layout (CommandRunner_help plain_libs) (commandSpecs (new_CommandRunner None :: unit runner)) 80"
  by (simp add: CommandRunner_getHelp_def help_layout_def new_CommandRunner_def CommandRunner_help_def
      CommandRunner_getHelpIntro_def CommandRunner_getHelpTrailer_def nl_def)

lemma constructed_entry:
  assumes made: "new_CommandSpec lib syn summary factory = Inr spec"
    and nospace: "take 1 syn \<noteq> '' ''"
  shows "\<exists>rest. syn = spec_name spec @ rest
    \<and> CommandRunner_getHelpSummaryEntry lib (spec\<lparr>spec_firstOfGroup := b\<rparr>) rightMargin
        = toUpperCase lib (spec_name spec) @ rest @ nl
            @ wrapText lib (''  '' @ summary) rightMargin True @ nl"
proof -
  let ?notspace = "\<lambda>c. c \<noteq> CHR '' ''"
  from nospace have lead: "dropWhile (\<lambda>c. c = CHR '' '') syn = syn"
    by (cases syn) auto
  from made obtain name where m: "match_name syn = Some name"
    and spec: "spec = \<lparr>spec_name = name, spec_normName = toLowerCase lib name,
                    spec_syntax = syn, spec_summary = summary,
                    spec_firstOfGroup = False, createCommand = factory\<rparr>"
    by (auto simp: new_CommandSpec_def split: option.splits if_splits)
  from m lead have name: "name = takeWhile ?notspace syn"
    by (auto simp: match_name_def Let_def split: if_splits)
  have split: "syn = name @ dropWhile ?notspace syn"
    by (simp add: name)
  have "drop (length name) syn = dropWhile ?notspace syn"
    by (simp add: name dropWhile_eq_drop)
  then have "CommandRunner_getHelpSummaryEntry lib (spec\<lparr>spec_firstOfGroup := b\<rparr>) rightMargin
        = toUpperCase lib name @ dropWhile ?notspace syn @ nl
            @ wrapText lib (''  '' @ summary) rightMargin True @ nl"
    by (simp add: CommandRunner_getHelpSummaryEntry_def spec)
  with split show ?thesis by (auto simp: spec)
qed

text \<open>
  C9, amended. On a registry with at least one spec, \<open>getHelp\<close> returns the introduction,
  then for each registered spec, in registration order, its summary entry, with a blank
  line before the entry of each spec that is the first of its group, then the trailer. On
  the empty registry it returns \<open>Help is not available.\<close> For groups registered without a
  duplicate, the blank line stands before the first entry of each non-empty group. For
  a spec that the constructor made from a syntax text that begins with the command name,
  the entry of the base class is the upper-case form of the name followed by the rest of
  the syntax text and a line break, then the wrapped summary and a line break. (Nothing
  is said about the entry for a syntax text with a leading space.)
\<close>

theorem aggregate_help_layout:
  fixes r :: "'u runner" and groups :: "'u command_spec list list" and spec :: "'u command_spec"
  shows "(commandSpecs r \<noteq> [] \<longrightarrow>
            CommandRunner_getHelp h r rightMargin = help_layout h (commandSpecs r) rightMargin)
    \<and> (commandSpecs r = [] \<longrightarrow> CommandRunner_getHelp h r rightMargin = ''Help is not available.'')
    \<and> (distinct (map spec_normName (concat groups)) \<and> concat groups \<noteq> [] \<longrightarrow>
          CommandRunner_getHelp (CommandRunner_help lib) (addCommands_seq (new_CommandRunner w) groups) rightMargin
            = help_layout_groups (CommandRunner_help lib) groups rightMargin)
    \<and> (new_CommandSpec lib syn summary factory = Inr spec \<and> take 1 syn \<noteq> '' '' \<longrightarrow>
          (\<exists>rest. syn = spec_name spec @ rest
            \<and> cr_getHelpSummaryEntry (CommandRunner_help lib) (spec\<lparr>spec_firstOfGroup := b\<rparr>) rightMargin
                = toUpperCase lib (spec_name spec) @ rest @ nl
                    @ wrapText lib (''  '' @ summary) rightMargin True @ nl))"
proof (intro conjI impI)
  assume "commandSpecs r \<noteq> []"
  then show "CommandRunner_getHelp h r rightMargin = help_layout h (commandSpecs r) rightMargin"
    by (simp add: CommandRunner_getHelp_def help_layout_def getHelp_loop_concat)
next
  assume "commandSpecs r = []"
  then show "CommandRunner_getHelp h r rightMargin = ''Help is not available.''"
    by (simp add: CommandRunner_getHelp_def)
next
  assume made: "new_CommandSpec lib syn summary factory = Inr spec \<and> take 1 syn \<noteq> '' ''"
  then have m1: "new_CommandSpec lib syn summary factory = Inr spec" and m2: "take 1 syn \<noteq> '' ''"
    by blast+
  from constructed_entry [OF m1 m2] show "\<exists>rest. syn = spec_name spec @ rest
            \<and> cr_getHelpSummaryEntry (CommandRunner_help lib) (spec\<lparr>spec_firstOfGroup := b\<rparr>) rightMargin
                = toUpperCase lib (spec_name spec) @ rest @ nl
                    @ wrapText lib (''  '' @ summary) rightMargin True @ nl"
    by (simp add: CommandRunner_help_def)
next
  assume g: "distinct (map spec_normName (concat groups)) \<and> concat groups \<noteq> []"
  let ?r = "addCommands_seq (new_CommandRunner w) groups :: 'u runner"
  let ?h = "CommandRunner_help lib :: 'u help_methods"
  from g have "distinct (map spec_normName (commandSpecs (new_CommandRunner w :: 'u runner) @ concat groups))"
    by (simp add: new_CommandRunner_def)
  from addCommands_seq_fresh [OF this]
  have specs: "commandSpecs ?r = concat (map stored_group groups)"
    by (simp add: new_CommandRunner_def)
  have "map spec_normName (concat (map stored_group groups)) = map spec_normName (concat groups)"
    by (induction groups) (simp_all add: stored_group_names)
  with g have ne: "commandSpecs ?r \<noteq> []" unfolding specs by (metis map_is_Nil_conv)
  have entries: "concat (map (\<lambda>spec. (if spec_firstOfGroup spec then nl else [])
                               @ cr_getHelpSummaryEntry ?h spec rightMargin) (concat (map stored_group gs)))
        = concat (map (\<lambda>grp. if grp = [] then []
                             else nl @ concat (map (\<lambda>spec. cr_getHelpSummaryEntry ?h spec rightMargin) grp)) gs)"
    for gs :: "'u command_spec list list"
    by (induction gs) (simp_all add: CommandRunner_help_def stored_group_entries)
  from ne have "CommandRunner_getHelp ?h ?r rightMargin =
      getHelp_loop ?h rightMargin (commandSpecs ?r) (cr_getHelpIntro ?h rightMargin)
        @ cr_getHelpTrailer ?h rightMargin"
    by (simp add: CommandRunner_getHelp_def)
  then show "CommandRunner_getHelp ?h ?r rightMargin = help_layout_groups ?h groups rightMargin"
    by (simp add: getHelp_loop_concat help_layout_groups_def specs entries)
qed

theorem aggregate_help_layout_witness:
  "CommandRunner_getHelp (CommandRunner_help plain_libs) example_runner 80
     = ''This tool supports the following commands:'' @ nl
         @ nl @ ''HELLO'' @ nl @ ''  Says hello back to you'' @ nl
         @ nl @ ''BUILD <target>'' @ nl @ ''  Builds the target'' @ nl
         @ nl
   \<and> CommandRunner_getHelp (CommandRunner_help plain_libs) (new_CommandRunner None :: unit runner) 80
       = ''Help is not available.''
   \<and> CommandRunner_getHelp (CommandRunner_help plain_libs)
         (addCommands_seq (new_CommandRunner None) [[hello_spec, build_spec]]) 80
     = ''This tool supports the following commands:'' @ nl
         @ nl @ ''HELLO'' @ nl @ ''  Says hello back to you'' @ nl
         @ ''BUILD <target>'' @ nl @ ''  Builds the target'' @ nl
         @ nl
   \<and> (\<exists>rest. ''Build <target>'' = ''Build'' @ rest
         \<and> cr_getHelpSummaryEntry (CommandRunner_help plain_libs) (build_spec\<lparr>spec_firstOfGroup := True\<rparr>) 80
             = ''BUILD'' @ rest @ nl @ ''  Builds the target'' @ nl)"
proof -
  let ?h = "CommandRunner_help plain_libs :: unit help_methods"
  have ne: "commandSpecs example_runner \<noteq> []" by (simp add: example_specs)
  have e: "commandSpecs (new_CommandRunner None :: unit runner) = []" by (simp add: new_CommandRunner_def)
  have g: "distinct (map spec_normName (concat [[hello_spec, build_spec]])) \<and> concat [[hello_spec, build_spec]] \<noteq> []"
    by (simp add: hello_spec_def build_spec_def)
  have made: "new_CommandSpec plain_libs ''Build <target>'' ''Builds the target'' (\<lambda>u. (hello_command, u))
                = Inr build_spec \<and> take 1 ''Build <target>'' \<noteq> '' ''"
    by (simp add: new_CommandSpec_def match_name_def build_spec_def plain_lower)
  have l1: "help_layout ?h (commandSpecs example_runner) 80
     = ''This tool supports the following commands:'' @ nl
         @ nl @ ''HELLO'' @ nl @ ''  Says hello back to you'' @ nl
         @ nl @ ''BUILD <target>'' @ nl @ ''  Builds the target'' @ nl
         @ nl"
    by (simp add: help_layout_def example_specs CommandRunner_help_def CommandRunner_getHelpIntro_def
        CommandRunner_getHelpTrailer_def CommandRunner_getHelpSummaryEntry_def plain_libs_def
        hello_spec_def build_spec_def plain_upper)
  have l2: "help_layout_groups ?h [[hello_spec, build_spec]] 80
     = ''This tool supports the following commands:'' @ nl
         @ nl @ ''HELLO'' @ nl @ ''  Says hello back to you'' @ nl
         @ ''BUILD <target>'' @ nl @ ''  Builds the target'' @ nl
         @ nl"
    by (simp add: help_layout_groups_def CommandRunner_help_def CommandRunner_getHelpIntro_def
        CommandRunner_getHelpTrailer_def CommandRunner_getHelpSummaryEntry_def plain_libs_def
        hello_spec_def build_spec_def plain_upper)
  have n: "spec_name build_spec = ''Build''" by (simp add: build_spec_def)
  have w: "wrapText plain_libs t 80 True = t" for t by (simp add: plain_libs_def)
  from aggregate_help_layout [where r = example_runner and h = ?h and rightMargin = 80 and lib = plain_libs
      and groups = "[[hello_spec, build_spec]]" and w = None and spec = build_spec
      and syn = "''Build <target>''" and summary = "''Builds the target''"
      and factory = "\<lambda>u. (hello_command, u)" and b = True]
    aggregate_help_layout [where r = "new_CommandRunner None" and h = ?h and rightMargin = 80
      and lib = plain_libs and groups = "[[hello_spec, build_spec]]" and w = None and spec = build_spec
      and syn = "''Build <target>''" and summary = "''Builds the target''"
      and factory = "\<lambda>u. (hello_command, u)" and b = True]
    ne e g made l1 l2
  show ?thesis by (simp add: n toUpperCase_Build w)
qed

section \<open>Properties of the option merge\<close>

lemma Object_assign_map:
  "distinct (map fst source) \<Longrightarrow>
     map_of (Object_assign target source) = map_of target ++ map_of source"
  unfolding Object_assign_def
proof (induction source arbitrary: target)
  case Nil
  then show ?case by simp
next
  case (Cons p source)
  obtain k v where p: "p = (k, v)" by (cases p)
  from Cons.prems p have fresh: "k \<notin> dom (map_of source)" and d: "distinct (map fst source)"
    by (auto simp: dom_map_of_conv_image_fst)
  have "map_of (fold (\<lambda>(k, v). AList.update k v) (p # source) target)
          = map_of (fold (\<lambda>(k, v). AList.update k v) source (AList.update k v target))"
    by (simp add: p)
  also have "\<dots> = (map_of target)(k \<mapsto> v) ++ map_of source"
    by (simp only: Cons.IH [OF d] update_conv')
  also have "\<dots> = (map_of target ++ map_of source)(k \<mapsto> v)"
    using fresh by (rule map_add_upd_left)
  also have "\<dots> = map_of target ++ (map_of source)(k \<mapsto> v)"
    by (rule map_add_upd [symmetric])
  also have "(map_of source)(k \<mapsto> v) = map_of (p # source)"
    by (simp only: p map_of.simps fst_conv snd_conv)
  finally show ?case .
qed

lemma addOptions_alias_ok:
  assumes "opt_alias toOptions \<noteq> None" and "unique_keys (opt_alias fromOptions)"
  shows "\<exists>t. addOptions_alias toOptions fromOptions = Inr t
    \<and> object_map (opt_alias t) = object_map (opt_alias toOptions) ++ object_map (opt_alias fromOptions)
    \<and> opt_alias t \<noteq> None
    \<and> opt_boolean t = opt_boolean toOptions \<and> opt_default t = opt_default toOptions
    \<and> opt_string t = opt_string toOptions"
  using assms
  by (auto simp: addOptions_alias_def object_map_def unique_keys_def Object_assign_map
      split: option.splits)

lemma names_of_array: "names_of (Some (JArr vs)) = set vs"
  by (simp add: names_of_def)

lemma names_of_array_concat:
  "set (array_concat names value) = set names \<union> names_of (Some value)"
  by (cases "value") (auto simp: array_concat_def names_of_def)

lemma addOptions_boolean_ok:
  assumes "opt_boolean toOptions = Some (JArr names)"
  shows "\<exists>t names'. addOptions_boolean toOptions fromOptions = Inr t
    \<and> opt_boolean t = Some (JArr names')
    \<and> set names' = set names \<union> names_of (opt_boolean fromOptions)
    \<and> opt_alias t = opt_alias toOptions \<and> opt_default t = opt_default toOptions
    \<and> opt_string t = opt_string toOptions"
proof (cases "opt_boolean fromOptions")
  case None
  with assms show ?thesis by (simp add: addOptions_boolean_def names_of_def)
next
  case (Some "value")
  show ?thesis
  proof (cases "isArray value")
    case True
    with Some assms show ?thesis
      by (simp add: addOptions_boolean_def names_of_array_concat)
  next
    case False
    then have "names_of (Some value) = {value}"
      by (cases "value") (simp_all add: names_of_def isArray_def)
    with False Some assms show ?thesis
      by (simp add: addOptions_boolean_def)
  qed
qed

lemma addOptions_default_ok:
  assumes "unique_keys (opt_default fromOptions)"
  shows "\<exists>t. addOptions_default toOptions fromOptions = Inr t
    \<and> object_map (opt_default t) = object_map (opt_default toOptions) ++ object_map (opt_default fromOptions)
    \<and> opt_alias t = opt_alias toOptions \<and> opt_boolean t = opt_boolean toOptions
    \<and> opt_string t = opt_string toOptions"
  using assms
  by (auto simp: addOptions_default_def object_map_def unique_keys_def Object_assign_map
      split: option.splits)

lemma addOptions_string_ok:
  assumes "opt_string toOptions = None \<or> (\<exists>names. opt_string toOptions = Some (JArr names))"
  shows "\<exists>t. addOptions_string toOptions fromOptions = Inr t
    \<and> (opt_string t = None \<or> (\<exists>names. opt_string t = Some (JArr names)))
    \<and> names_of (opt_string t) = names_of (opt_string toOptions) \<union> names_of (opt_string fromOptions)
    \<and> opt_alias t = opt_alias toOptions \<and> opt_boolean t = opt_boolean toOptions
    \<and> opt_default t = opt_default toOptions"
proof (cases "opt_string fromOptions")
  case None
  with assms show ?thesis by (auto simp: addOptions_string_def names_of_def)
next
  case (Some "value")
  obtain names where sn: "(case opt_string toOptions of None \<Rightarrow> JArr []
                            | Some s \<Rightarrow> if truthy s then s else JArr []) = JArr names"
    and nm: "names_of (opt_string toOptions) = set names"
    using assms by (auto simp: names_of_def)
  show ?thesis
  proof (cases "isString value")
    case True
    then have "names_of (Some value) = {value}"
      by (cases "value") (simp_all add: names_of_def isString_def)
    with True Some sn nm show ?thesis
      by (simp add: addOptions_string_def names_of_array)
  next
    case False
    with Some sn nm show ?thesis
      by (simp add: addOptions_string_def names_of_array names_of_array_concat)
  qed
qed

lemma map_add_twice: "(m ++ n) ++ n = m ++ n"
  by (rule ext) (simp add: map_add_def split: option.splits)

lemma mergeable_iff:
  "mergeable t \<longleftrightarrow>
     opt_alias t \<noteq> None \<and> (\<exists>names. opt_boolean t = Some (JArr names))
       \<and> (opt_string t = None \<or> (\<exists>names. opt_string t = Some (JArr names)))"
  by (auto simp: mergeable_def split: option.splits jsval.splits)

lemma merge_once:
  assumes m: "mergeable toOptions"
    and ka: "unique_keys (opt_alias fromOptions)" and kd: "unique_keys (opt_default fromOptions)"
  shows "\<exists>t. CommandUtil_addOptions toOptions fromOptions = Inr t \<and> mergeable t
      \<and> names_of (opt_boolean t) = names_of (opt_boolean toOptions) \<union> names_of (opt_boolean fromOptions)
      \<and> names_of (opt_string t) = names_of (opt_string toOptions) \<union> names_of (opt_string fromOptions)
      \<and> object_map (opt_alias t) = object_map (opt_alias toOptions) ++ object_map (opt_alias fromOptions)
      \<and> object_map (opt_default t) = object_map (opt_default toOptions) ++ object_map (opt_default fromOptions)"
proof -
  from m obtain names where a0: "opt_alias toOptions \<noteq> None"
    and b0: "opt_boolean toOptions = Some (JArr names)"
    and s0: "opt_string toOptions = None \<or> (\<exists>names. opt_string toOptions = Some (JArr names))"
    by (auto simp: mergeable_iff)
  from addOptions_alias_ok [OF a0 ka] obtain t1 where
    r1: "addOptions_alias toOptions fromOptions = Inr t1"
    and a1: "object_map (opt_alias t1) = object_map (opt_alias toOptions) ++ object_map (opt_alias fromOptions)"
    and a1': "opt_alias t1 \<noteq> None"
    and b1: "opt_boolean t1 = opt_boolean toOptions" and d1: "opt_default t1 = opt_default toOptions"
    and s1: "opt_string t1 = opt_string toOptions"
    by blast
  from b0 b1 have "opt_boolean t1 = Some (JArr names)" by simp
  from addOptions_boolean_ok [OF this, of fromOptions] obtain t2 names' where
    r2: "addOptions_boolean t1 fromOptions = Inr t2"
    and b2: "opt_boolean t2 = Some (JArr names')"
    and b2': "set names' = set names \<union> names_of (opt_boolean fromOptions)"
    and a2: "opt_alias t2 = opt_alias t1" and d2: "opt_default t2 = opt_default t1"
    and s2: "opt_string t2 = opt_string t1"
    by blast
  from addOptions_default_ok [OF kd, of t2] obtain t3 where
    r3: "addOptions_default t2 fromOptions = Inr t3"
    and d3: "object_map (opt_default t3) = object_map (opt_default t2) ++ object_map (opt_default fromOptions)"
    and a3: "opt_alias t3 = opt_alias t2" and b3: "opt_boolean t3 = opt_boolean t2"
    and s3: "opt_string t3 = opt_string t2"
    by blast
  from s0 s1 s2 s3 have "opt_string t3 = None \<or> (\<exists>names. opt_string t3 = Some (JArr names))" by simp
  from addOptions_string_ok [OF this, of fromOptions] obtain t4 where
    r4: "addOptions_string t3 fromOptions = Inr t4"
    and s4: "opt_string t4 = None \<or> (\<exists>names. opt_string t4 = Some (JArr names))"
    and s4': "names_of (opt_string t4) = names_of (opt_string t3) \<union> names_of (opt_string fromOptions)"
    and a4: "opt_alias t4 = opt_alias t3" and b4: "opt_boolean t4 = opt_boolean t3"
    and d4: "opt_default t4 = opt_default t3"
    by blast
  have run: "CommandUtil_addOptions toOptions fromOptions = Inr t4"
    by (simp add: CommandUtil_addOptions_def and_then_def r1 r2 r3 r4)
  have mt: "mergeable t4"
    using a1' a2 a3 a4 b2 b3 b4 s4 by (simp add: mergeable_iff)
  have nb: "names_of (opt_boolean t4) = names_of (opt_boolean toOptions) \<union> names_of (opt_boolean fromOptions)"
    using b0 b2 b2' b3 b4 by (simp add: names_of_array)
  have ns: "names_of (opt_string t4) = names_of (opt_string toOptions) \<union> names_of (opt_string fromOptions)"
    using s1 s2 s3 s4' by simp
  have ma: "object_map (opt_alias t4) = object_map (opt_alias toOptions) ++ object_map (opt_alias fromOptions)"
    using a1 a2 a3 a4 by simp
  have md: "object_map (opt_default t4) = object_map (opt_default toOptions) ++ object_map (opt_default fromOptions)"
    using d1 d2 d3 d4 by simp
  from run mt nb ns ma md show ?thesis by blast
qed

text \<open>
  What a merge keeps. Let the destination have an alias object and a boolean array, as
  the configuration of \<open>run\<close> has, and a string setting that is absent or an array. Then
  \<open>CommandUtil.addOptions\<close> throws nothing, and its result can again be merged into. The
  names of the boolean setting and of the string setting after the merge are the union
  of the destination's and the source's names. The alias map and the default map after
  the merge are the destination's map overridden by the source's map. Merging the same
  source a second time changes none of these sets and maps.
\<close>

lemma merge_is_union_with_override:
  assumes "mergeable toOptions"
    and "unique_keys (opt_alias fromOptions)" and "unique_keys (opt_default fromOptions)"
  shows "\<exists>t. CommandUtil_addOptions toOptions fromOptions = Inr t \<and> mergeable t
      \<and> names_of (opt_boolean t) = names_of (opt_boolean toOptions) \<union> names_of (opt_boolean fromOptions)
      \<and> names_of (opt_string t) = names_of (opt_string toOptions) \<union> names_of (opt_string fromOptions)
      \<and> object_map (opt_alias t) = object_map (opt_alias toOptions) ++ object_map (opt_alias fromOptions)
      \<and> object_map (opt_default t) = object_map (opt_default toOptions) ++ object_map (opt_default fromOptions)
      \<and> (\<exists>t2. CommandUtil_addOptions t fromOptions = Inr t2
            \<and> names_of (opt_boolean t2) = names_of (opt_boolean t)
            \<and> names_of (opt_string t2) = names_of (opt_string t)
            \<and> object_map (opt_alias t2) = object_map (opt_alias t)
            \<and> object_map (opt_default t2) = object_map (opt_default t))"
proof -
  from merge_once [OF assms] obtain t where
    r: "CommandUtil_addOptions toOptions fromOptions = Inr t" and m: "mergeable t"
    and nb: "names_of (opt_boolean t) = names_of (opt_boolean toOptions) \<union> names_of (opt_boolean fromOptions)"
    and ns: "names_of (opt_string t) = names_of (opt_string toOptions) \<union> names_of (opt_string fromOptions)"
    and ma: "object_map (opt_alias t) = object_map (opt_alias toOptions) ++ object_map (opt_alias fromOptions)"
    and md: "object_map (opt_default t) = object_map (opt_default toOptions) ++ object_map (opt_default fromOptions)"
    by blast
  from merge_once [OF m assms(2,3)] obtain t2 where
    r2: "CommandUtil_addOptions t fromOptions = Inr t2"
    and nb2: "names_of (opt_boolean t2) = names_of (opt_boolean t) \<union> names_of (opt_boolean fromOptions)"
    and ns2: "names_of (opt_string t2) = names_of (opt_string t) \<union> names_of (opt_string fromOptions)"
    and ma2: "object_map (opt_alias t2) = object_map (opt_alias t) ++ object_map (opt_alias fromOptions)"
    and md2: "object_map (opt_default t2) = object_map (opt_default t) ++ object_map (opt_default fromOptions)"
    by blast
  have "names_of (opt_boolean t2) = names_of (opt_boolean t)" using nb nb2 by auto
  moreover have "names_of (opt_string t2) = names_of (opt_string t)" using ns ns2 by auto
  moreover have "object_map (opt_alias t2) = object_map (opt_alias t)" using ma ma2 by (simp add: map_add_twice)
  moreover have "object_map (opt_default t2) = object_map (opt_default t)"
    using md md2 by (simp add: map_add_twice)
  ultimately show ?thesis using r m nb ns ma md r2 by blast
qed

lemma merge_is_union_with_override_example:
  "\<exists>t. CommandUtil_addOptions configOptions
           \<lparr>opt_alias = Some [(''v'', JStr ''verbose'')], opt_boolean = Some (JArr [JStr ''v'']),
            opt_default = Some [(''v'', JBool False)], opt_string = Some (JStr ''out''),
            opt_other = []\<rparr> = Inr t
     \<and> names_of (opt_boolean t) = {JStr ''h'', JStr ''v''}
     \<and> names_of (opt_string t) = {JStr ''out''}
     \<and> object_map (opt_alias t) = [''h'' \<mapsto> JStr ''help'', ''v'' \<mapsto> JStr ''verbose'']
     \<and> object_map (opt_default t) = [''v'' \<mapsto> JBool False]
     \<and> (\<exists>t2. CommandUtil_addOptions t
           \<lparr>opt_alias = Some [(''v'', JStr ''verbose'')], opt_boolean = Some (JArr [JStr ''v'']),
            opt_default = Some [(''v'', JBool False)], opt_string = Some (JStr ''out''),
            opt_other = []\<rparr> = Inr t2
          \<and> names_of (opt_boolean t2) = {JStr ''h'', JStr ''v''})"
proof -
  let ?from = "\<lparr>opt_alias = Some [(''v'', JStr ''verbose'')], opt_boolean = Some (JArr [JStr ''v'']),
            opt_default = Some [(''v'', JBool False)], opt_string = Some (JStr ''out''),
            opt_other = []\<rparr>"
  have m: "mergeable configOptions" by (simp add: mergeable_def configOptions_def)
  have ka: "unique_keys (opt_alias ?from)" by (simp add: unique_keys_def)
  have kd: "unique_keys (opt_default ?from)" by (simp add: unique_keys_def)
  have v: "names_of (opt_boolean configOptions) \<union> names_of (opt_boolean ?from) = {JStr ''h'', JStr ''v''}"
    "names_of (opt_string configOptions) \<union> names_of (opt_string ?from) = {JStr ''out''}"
    "object_map (opt_alias configOptions) ++ object_map (opt_alias ?from)
       = [''h'' \<mapsto> JStr ''help'', ''v'' \<mapsto> JStr ''verbose'']"
    "object_map (opt_default configOptions) ++ object_map (opt_default ?from) = [''v'' \<mapsto> JBool False]"
    by (auto simp: names_of_def configOptions_def object_map_def)
  from merge_is_union_with_override [OF m ka kd] show ?thesis
    unfolding v by metis
qed

text \<open>
  C5. The merge is not additive for the alias and default settings: \<open>Object.assign\<close>
  overwrites the destination's entry under a key that the source declares too, although
  the function is documented to merge the options so that none are lost from either set.
  Merging the source \<open>{ alias: { h: 'hilfe' }, boolean: ['h'] }\<close> into the configuration
  of \<open>run\<close>, whose alias for \<open>h\<close> is \<open>help\<close>, throws nothing and leaves the alias \<open>hilfe\<close>
  for \<open>h\<close>: the destination's alias setting is no longer present. The same merge leaves
  the name \<open>h\<close> twice in the boolean array.
\<close>

theorem merge_replaces_destination_alias:
  "object_map (opt_alias configOptions) ''h'' = Some (JStr ''help'')
   \<and> CommandUtil_addOptions configOptions
         \<lparr>opt_alias = Some [(''h'', JStr ''hilfe'')], opt_boolean = Some (JArr [JStr ''h'']),
          opt_default = None, opt_string = None, opt_other = []\<rparr>
       = Inr \<lparr>opt_alias = Some [(''h'', JStr ''hilfe'')],
              opt_boolean = Some (JArr [JStr ''h'', JStr ''h'']),
              opt_default = None, opt_string = None, opt_other = []\<rparr>"
  by (simp add: configOptions_def object_map_def CommandUtil_addOptions_def and_then_def
      addOptions_alias_def addOptions_boolean_def addOptions_default_def addOptions_string_def
      Object_assign_def isArray_def array_concat_def)

end
